theory Spec2Isabelle
  imports Complex_Main "HOL-Library.Word"
begin

section \<open>The render scale widget of neuroglancer\<close>

text \<open>
  A shallow embedding of \<^verbatim>\<open>src/neuroglancer/widget/render_scale_widget.ts\<close>.
  A JavaScript number is modelled by a real: the arithmetic of the widget is followed
  exactly, without the rounding of IEEE doubles, and without NaN and the infinities.
  The counters of the histogram are the 32-bit words of its \<^verbatim>\<open>Uint32Array\<close>.
\<close>

subsection \<open>JavaScript primitives\<close>

text \<open>Decimal numerals, as \<^verbatim>\<open>x + ''\<close> prints an integer below \<open>10\<^sup>2\<^sup>1\<close>.\<close>

definition digitChar :: "nat \<Rightarrow> char" where
  "digitChar d = ''0123456789'' ! (d mod 10)"

function showNat :: "nat \<Rightarrow> string" where
  "showNat n = (if n < 10 then [digitChar n] else showNat (n div 10) @ [digitChar (n mod 10)])"
  by pat_completeness auto
termination
  by (relation "measure id") auto

declare showNat.simps [simp del]

definition showInt :: "int \<Rightarrow> string" where
  "showInt i = (if i < 0 then ''-'' @ showNat (nat (- i)) else showNat (nat i))"

text \<open>
  \<^verbatim>\<open>x | 0\<close> is ToInt32: the number is truncated towards zero and wrapped to a signed
  32-bit integer; NaN and the infinities give 0.
\<close>

definition js_trunc :: "real \<Rightarrow> int" where
  "js_trunc x = (if x < 0 then \<lceil>x\<rceil> else \<lfloor>x\<rfloor>)"

definition toInt32 :: "real \<Rightarrow> int" where
  "toInt32 x = sint (word_of_int (js_trunc x) :: 32 word)"

text \<open>
  \<^verbatim>\<open>Math.log2(x) | 0\<close>: the logarithm of a positive number; \<^verbatim>\<open>Math.log2(0)\<close> is
  \<open>-\<infinity>\<close> and the logarithm of a negative number is NaN, and ToInt32 sends both to 0.
\<close>

definition log2_int32 :: "real \<Rightarrow> int" where
  "log2_int32 x = (if 0 < x then toInt32 (log 2 x) else 0)"

subsection \<open>Collaborators that are not part of the widget's file\<close>

text \<open>
  Modelled from the spec: \<^verbatim>\<open>numberToStringFixed\<close> of \<^verbatim>\<open>util/number_to_string\<close> is
  not among the sources. The specification has it render the coefficient "rounded to 1
  decimal", as in \<^verbatim>\<open>1.0p11\<close>: the number rounded to \<open>digits\<close> decimals (a tie goes
  up, as \<^verbatim>\<open>toFixed\<close> breaks it), printed with exactly that many decimals.
\<close>

definition numberToStringFixed :: "real \<Rightarrow> nat \<Rightarrow> string" where
  "numberToStringFixed x digits =
     (let n = nat (round (\<bar>x\<bar> * 10 ^ digits));
          whole = showNat (n div 10 ^ digits);
          frac = showNat (n mod 10 ^ digits);
          body = (if digits = 0 then whole
                  else whole @ ''.'' @ replicate (digits - length frac) (CHR ''0'') @ frac)
      in if x < 0 then ''-'' @ body else body)"

subsection \<open>The pixel number label\<close>

definition formatPixelNumber :: "real \<Rightarrow> string" where
  "formatPixelNumber x =
     (if x < 1 \<or> x > 1024 then
        (let exponent = log2_int32 x;
             coeff = x / 2 powr real_of_int exponent
         in numberToStringFixed coeff 1 @ ''p'' @ showInt exponent)
      else showInt (round x))"

text \<open>
  The label as the specification words it, with the exponent \<open>\<lfloor>log\<^sub>2 x\<rfloor>\<close>; it is
  compared with \<^const>\<open>formatPixelNumber\<close> below.
\<close>

definition formatPixelNumber_spec :: "real \<Rightarrow> string" where
  "formatPixelNumber_spec x =
     (if 1 \<le> x \<and> x \<le> 1024 then showInt (round x)
      else (let exponent = \<lfloor>log 2 x\<rfloor>;
                coeff = x / 2 powr real_of_int exponent
            in numberToStringFixed coeff 1 @ ''p'' @ showInt exponent))"

text \<open>
  Modelled from the spec: \<^verbatim>\<open>clampToInterval\<close> of \<^verbatim>\<open>util/lerp\<close> is not among the
  sources. The specification writes \<^verbatim>\<open>clamp(v, [lo, hi])\<close> for the value brought into
  the closed interval.
\<close>

definition clampToInterval :: "real \<times> real \<Rightarrow> real \<Rightarrow> real" where
  "clampToInterval interval v = min (max (fst interval) v) (snd interval)"

text \<open>
  The constants and the two transforms of \<^verbatim>\<open>render_scale_statistics\<close> are not among
  the sources either; the widget takes them as parameters. The specification asks for a
  positive number of bins and a positive bin width.
\<close>

record config =
  numRenderScaleHistogramBins :: nat
  renderScaleHistogramBinSize :: real
  renderScaleHistogramOrigin :: real
  getRenderScaleHistogramOffset :: "real \<Rightarrow> real \<Rightarrow> real"
  getRenderScaleFromHistogramOffset :: "real \<Rightarrow> real \<Rightarrow> real"

text \<open>
  A logarithmic transform that meets the contract of the specification (the two maps are
  inverse to each other, the offset grows with the value); it is used for the concrete
  configurations below.
\<close>

definition logConfig :: "nat \<Rightarrow> real \<Rightarrow> real \<Rightarrow> config" where
  "logConfig bins binSize origin =
     \<lparr>numRenderScaleHistogramBins = bins,
      renderScaleHistogramBinSize = binSize,
      renderScaleHistogramOrigin = origin,
      getRenderScaleHistogramOffset = (\<lambda>renderScale orig. (log 2 renderScale - orig) / binSize),
      getRenderScaleFromHistogramOffset = (\<lambda>offset orig. 2 powr (offset * binSize + orig))\<rparr>"

subsection \<open>The widget and its wheel action\<close>

datatype widgetClass = RenderScaleWidget | VolumeRenderingRenderScaleWidget

definition logScaleOrigin :: "config \<Rightarrow> widgetClass \<Rightarrow> real" where
  "logScaleOrigin cfg cls =
     (case cls of RenderScaleWidget \<Rightarrow> renderScaleHistogramOrigin cfg
      | VolumeRenderingRenderScaleWidget \<Rightarrow> 1)"

definition unitOfTarget :: "widgetClass \<Rightarrow> string" where
  "unitOfTarget cls =
     (case cls of RenderScaleWidget \<Rightarrow> ''px'' | VolumeRenderingRenderScaleWidget \<Rightarrow> ''samples'')"

record wheelEvent =
  deltaY :: real
  defaultPrevented :: bool

definition getWheelMoveValue :: "widgetClass \<Rightarrow> wheelEvent \<Rightarrow> real" where
  "getWheelMoveValue cls event =
     (case cls of RenderScaleWidget \<Rightarrow> deltaY event
      | VolumeRenderingRenderScaleWidget \<Rightarrow> - deltaY event)"

text \<open>
  The state of the widget that the actions change: the tracked target value and the hover
  probe, a pair of the probed value and the pointer's y pixel.
\<close>

record widget =
  target :: real
  hoverTarget :: "(real \<times> real) option"

definition adjustViaWheel :: "config \<Rightarrow> widgetClass \<Rightarrow> widget \<Rightarrow> wheelEvent \<Rightarrow> widget \<times> wheelEvent" where
  "adjustViaWheel cfg cls w event =
     (let deltaY = getWheelMoveValue cls event in
      if deltaY = 0 then (w, event)
      else
        (let w1 = w\<lparr>hoverTarget := None\<rparr>;
             logScaleMax = round (logScaleOrigin cfg cls
                 + real (numRenderScaleHistogramBins cfg) * renderScaleHistogramBinSize cfg);
             targetValue = clampToInterval
                 (2 powr logScaleOrigin cfg cls, 2 powr real_of_int (logScaleMax - 1))
                 (target w1 * 2 powr sgn deltaY)
         in (w1\<lparr>target := targetValue\<rparr>, event\<lparr>defaultPrevented := True\<rparr>)))"

text \<open>A sequence of wheel events, each handled by \<^const>\<open>adjustViaWheel\<close>.\<close>

fun adjustAll :: "config \<Rightarrow> widgetClass \<Rightarrow> widget \<Rightarrow> wheelEvent list \<Rightarrow> widget" where
  "adjustAll cfg cls w [] = w"
| "adjustAll cfg cls w (event # events) =
     adjustAll cfg cls (fst (adjustViaWheel cfg cls w event)) events"

subsection \<open>The histogram and its registry of spatial scales\<close>

text \<open>
  \<^verbatim>\<open>histogram.value\<close> is a \<^verbatim>\<open>Uint32Array\<close>; \<^verbatim>\<open>histogram.spatialScales\<close> is a
  \<^verbatim>\<open>Map\<close> from a spatial scale to its row, kept here as the list of its entries in
  insertion order. The keys are JavaScript numbers; the model has the keys that are
  natural numbers, which JavaScript prints as their decimal numerals.
\<close>

record renderScaleHistogram =
  histValue :: "32 word list"
  histSpatialScales :: "(nat \<times> nat) list"
  histVisible :: bool
  fakeChunkCount :: nat

text \<open>
  \<^verbatim>\<open>Array.prototype.sort\<close> without a comparison function orders the elements by their
  string forms, compared by code units; a proper prefix comes first.
\<close>

fun stringLess :: "string \<Rightarrow> string \<Rightarrow> bool" where
  "stringLess [] [] = False"
| "stringLess [] (y # ys) = True"
| "stringLess (x # xs) [] = False"
| "stringLess (x # xs) (y # ys) =
     ((of_char x :: nat) < of_char y \<or> (x = y \<and> stringLess xs ys))"

fun insertByString :: "nat \<Rightarrow> nat list \<Rightarrow> nat list" where
  "insertByString k [] = [k]"
| "insertByString k (x # xs) =
     (if stringLess (showNat x) (showNat k) then x # insertByString k xs else k # x # xs)"

definition defaultSort :: "nat list \<Rightarrow> nat list" where
  "defaultSort ks = foldr insertByString ks []"

definition sortedSpatialScales :: "(nat \<times> nat) list \<Rightarrow> nat list" where
  "sortedSpatialScales spatialScales = defaultSort (map fst spatialScales)"

text \<open>
  The two loops over the series run \<^verbatim>\<open>spatialScaleIndex\<close> from \<^verbatim>\<open>numRows - 1\<close> down
  to 0, and \<^verbatim>\<open>numRows\<close> is the number of keys: they visit the sorted keys from the last
  to the first.
\<close>

definition seriesOrder :: "(nat \<times> nat) list \<Rightarrow> nat list" where
  "seriesOrder spatialScales = rev (sortedSpatialScales spatialScales)"

text \<open>The order the specification describes: the keys sorted as numbers, last to first.\<close>

definition seriesOrder_spec :: "(nat \<times> nat) list \<Rightarrow> nat list" where
  "seriesOrder_spec spatialScales = rev (sort (map fst spatialScales))"

subsection \<open>Reading counters, dividing\<close>

text \<open>
  A read outside the typed array gives \<^verbatim>\<open>undefined\<close> in the source, and a division by
  zero gives NaN or an infinity; the arithmetic of the widget then goes on with NaN. The
  model does not follow it: it stops with a fault that says which of the two happened.
\<close>

datatype fault = UndefinedRead | DivisionByZero

text \<open>
  The counters of a row and a bin: \<^verbatim>\<open>histogramData[index]\<close> chunks are present,
  \<^verbatim>\<open>histogramData[index + numRenderScaleHistogramBins]\<close> are not.
\<close>

definition readCounts :: "32 word list \<Rightarrow> nat \<Rightarrow> nat \<Rightarrow> fault + (nat \<times> nat)" where
  "readCounts histogramData index bins =
     (if index + bins < length histogramData
      then Inr (unat (histogramData ! index), unat (histogramData ! (index + bins)))
      else Inl UndefinedRead)"

definition jsDivide :: "real \<Rightarrow> real \<Rightarrow> fault + real" where
  "jsDivide a b = (if b = 0 then Inl DivisionByZero else Inr (a / b))"

text \<open>\<^verbatim>\<open>spatialScales.get(spatialScale)!\<close>\<close>

definition getRow :: "(nat \<times> nat) list \<Rightarrow> nat \<Rightarrow> fault + nat" where
  "getRow spatialScales spatialScale =
     (case map_of spatialScales spatialScale of None \<Rightarrow> Inl UndefinedRead | Some row \<Rightarrow> Inr row)"

subsection \<open>The draw pass\<close>

text \<open>The first loop: the largest count of a bin, at least 1, and the totals of all rows.\<close>

fun rowLoop ::
  "nat \<Rightarrow> 32 word list \<Rightarrow> nat \<Rightarrow> nat list \<Rightarrow> nat \<times> nat \<times> nat \<Rightarrow> fault + (nat \<times> nat \<times> nat)" where
  "rowLoop bins histogramData bin [] acc = Inr acc"
| "rowLoop bins histogramData bin (row # rows) (count, totalPresent, totalNotPresent) =
     (case readCounts histogramData (row * bins * 2 + bin) bins of
        Inl e \<Rightarrow> Inl e
      | Inr (presentCount, notPresentCount) \<Rightarrow>
          rowLoop bins histogramData bin rows
            (count + (presentCount + notPresentCount),
             totalPresent + presentCount,
             totalNotPresent + notPresentCount))"

fun binLoop ::
  "nat \<Rightarrow> 32 word list \<Rightarrow> nat \<Rightarrow> nat list \<Rightarrow> nat \<times> nat \<times> nat \<Rightarrow> fault + (nat \<times> nat \<times> nat)" where
  "binLoop bins histogramData numRows [] acc = Inr acc"
| "binLoop bins histogramData numRows (bin # rest) (maxCount, totalPresent, totalNotPresent) =
     (case rowLoop bins histogramData bin [0..<numRows] (0, totalPresent, totalNotPresent) of
        Inl e \<Rightarrow> Inl e
      | Inr (count, totalPresent', totalNotPresent') \<Rightarrow>
          binLoop bins histogramData numRows rest
            (max count maxCount, totalPresent', totalNotPresent'))"

definition countTotals :: "nat \<Rightarrow> 32 word list \<Rightarrow> nat \<Rightarrow> fault + (nat \<times> nat \<times> nat)" where
  "countTotals bins histogramData numRows =
     binLoop bins histogramData numRows [0..<bins] (1, 0, 0)"

text \<open>
  What the closures \<^verbatim>\<open>binToCanvasX\<close> and \<^verbatim>\<open>countToCanvasY\<close> and the loops after them
  see of the pass.
\<close>

record canvasPass =
  bins :: nat
  width :: nat
  height :: nat
  yScale :: real
  histogramData :: "32 word list"
  spatialScales :: "(nat \<times> nat) list"

definition binToCanvasX :: "canvasPass \<Rightarrow> real \<Rightarrow> real" where
  "binToCanvasX P bin = bin * real (width P) / real (bins P)"

definition countToCanvasY :: "canvasPass \<Rightarrow> nat \<Rightarrow> real" where
  "countToCanvasY P count = real (height P) - ln (1 + real count) * yScale P"

text \<open>The series under the pointer, in bin \<open>i\<close>.\<close>

fun hoverLoop :: "canvasPass \<Rightarrow> nat \<Rightarrow> real \<Rightarrow> nat list \<Rightarrow> nat \<Rightarrow> fault + nat option" where
  "hoverLoop P i hoverY [] cumulative = Inr None"
| "hoverLoop P i hoverY (spatialScale # rest) cumulative =
     (case getRow (spatialScales P) spatialScale of
        Inl e \<Rightarrow> Inl e
      | Inr row \<Rightarrow>
         (case readCounts (histogramData P) (2 * row * bins P + i) (bins P) of
            Inl e \<Rightarrow> Inl e
          | Inr (presentCount, notPresentCount) \<Rightarrow>
             (let count = presentCount + notPresentCount in
              if count = 0 then hoverLoop P i hoverY rest cumulative
              else
                (let yStart = round (countToCanvasY P cumulative);
                     cumulative' = cumulative + count;
                     yEnd = round (countToCanvasY P cumulative')
                 in if real_of_int yEnd \<le> hoverY \<and> hoverY \<le> real_of_int yStart
                    then Inr (Some spatialScale)
                    else hoverLoop P i hoverY rest cumulative'))))"

definition findHoverSpatialScale ::
  "config \<Rightarrow> real \<Rightarrow> canvasPass \<Rightarrow> (real \<times> real) option \<Rightarrow> fault + nat option" where
  "findHoverSpatialScale cfg origin P hoverValue =
     (case hoverValue of
        None \<Rightarrow> Inr None
      | Some (hoverRenderScale, hoverY) \<Rightarrow>
         (let i = \<lfloor>getRenderScaleHistogramOffset cfg hoverRenderScale origin\<rfloor> in
          if 0 \<le> i \<and> i < int (bins P)
          then hoverLoop P (nat i) hoverY (seriesOrder (spatialScales P)) 0
          else Inr None))"

text \<open>The totals of the hovered row, which replace the totals of all rows.\<close>

fun hoverTotalsLoop :: "canvasPass \<Rightarrow> nat \<Rightarrow> nat list \<Rightarrow> int \<times> int \<Rightarrow> fault + (int \<times> int)" where
  "hoverTotalsLoop P baseIndex [] acc = Inr acc"
| "hoverTotalsLoop P baseIndex (bin # rest) (totalPresent, totalNotPresent) =
     (case readCounts (histogramData P) (baseIndex + bin) (bins P) of
        Inl e \<Rightarrow> Inl e
      | Inr (presentCount, notPresentCount) \<Rightarrow>
          hoverTotalsLoop P baseIndex rest
            (totalPresent + int presentCount, totalNotPresent + int notPresentCount))"

definition chunkTotals :: "canvasPass \<Rightarrow> nat option \<Rightarrow> int \<times> int \<Rightarrow> fault + (int \<times> int)" where
  "chunkTotals P hoverSpatialScale totals =
     (case hoverSpatialScale of
        None \<Rightarrow> Inr totals
      | Some spatialScale \<Rightarrow>
         (case getRow (spatialScales P) spatialScale of
            Inl e \<Rightarrow> Inl e
          | Inr row \<Rightarrow>
              hoverTotalsLoop P (2 * row * bins P) [0..<bins P] (0, 0)))"

text \<open>
  The colours come from \<^verbatim>\<open>hsvToRgb\<close>, which is outside the widget: a fill style is
  kept as what determines it, the spatial scale (for the hue) and the saturation, with
  value 1 for the present chunks and 0.5 for the others.
\<close>

datatype fillStyle = PresentColor nat real | NotPresentColor nat real

datatype canvasOp = FillRect fillStyle real real real real

definition saturation :: "nat option \<Rightarrow> nat \<Rightarrow> real" where
  "saturation hoverSpatialScale spatialScale =
     (if Some spatialScale = hoverSpatialScale then 0.5 else 1)"

text \<open>
  The two rectangles of one series in bin \<open>i\<close>, on top of the \<open>cumulative\<close> count of the
  series drawn before it: the chunks that are not present above, the present ones below.
\<close>

definition fillBand ::
  "canvasPass \<Rightarrow> nat option \<Rightarrow> nat \<Rightarrow> nat \<Rightarrow> nat \<Rightarrow> nat \<Rightarrow> nat \<Rightarrow> fault + canvasOp list" where
  "fillBand P hoverSpatialScale spatialScale i presentCount notPresentCount cumulative =
     (let count = presentCount + notPresentCount;
          xStart = real_of_int (round (binToCanvasX P (real i)));
          xEnd = real_of_int (round (binToCanvasX P (real (i + 1))));
          yStart = real_of_int (round (countToCanvasY P cumulative));
          cumulative' = cumulative + count;
          yEnd = real_of_int (round (countToCanvasY P cumulative'))
      in case jsDivide (real presentCount * yEnd + real notPresentCount * yStart) (real count) of
           Inl e \<Rightarrow> Inl e
         | Inr ySplit \<Rightarrow>
             Inr [FillRect (NotPresentColor spatialScale
                      (saturation hoverSpatialScale spatialScale))
                    xStart yEnd (xEnd - xStart) (ySplit - yEnd),
                  FillRect (PresentColor spatialScale
                      (saturation hoverSpatialScale spatialScale))
                    xStart ySplit (xEnd - xStart) (yStart - ySplit)])"

text \<open>The stack of one bin: a band for every series that has chunks in it.\<close>

fun drawSeries :: "canvasPass \<Rightarrow> nat option \<Rightarrow> nat \<Rightarrow> nat list \<Rightarrow> nat \<Rightarrow> fault + canvasOp list" where
  "drawSeries P hoverSpatialScale i [] cumulative = Inr []"
| "drawSeries P hoverSpatialScale i (spatialScale # rest) cumulative =
     (case getRow (spatialScales P) spatialScale of
        Inl e \<Rightarrow> Inl e
      | Inr row \<Rightarrow>
         (case readCounts (histogramData P) (row * bins P * 2 + i) (bins P) of
            Inl e \<Rightarrow> Inl e
          | Inr (presentCount, notPresentCount) \<Rightarrow>
             (let count = presentCount + notPresentCount in
              if count = 0 then drawSeries P hoverSpatialScale i rest cumulative
              else
                (case fillBand P hoverSpatialScale spatialScale i presentCount notPresentCount
                        cumulative of
                   Inl e \<Rightarrow> Inl e
                 | Inr band \<Rightarrow>
                    (case drawSeries P hoverSpatialScale i rest (cumulative + count) of
                       Inl e \<Rightarrow> Inl e
                     | Inr ops \<Rightarrow> Inr (band @ ops))))))"

fun drawBins :: "canvasPass \<Rightarrow> nat option \<Rightarrow> nat list \<Rightarrow> fault + canvasOp list list" where
  "drawBins P hoverSpatialScale [] = Inr []"
| "drawBins P hoverSpatialScale (i # rest) =
     (case drawSeries P hoverSpatialScale i (seriesOrder (spatialScales P)) 0 of
        Inl e \<Rightarrow> Inl e
      | Inr ops \<Rightarrow>
         (case drawBins P hoverSpatialScale rest of
            Inl e \<Rightarrow> Inl e
          | Inr others \<Rightarrow> Inr (ops # others)))"

text \<open>
  What a pass shows: the two legends, the hovered series (the legend of the spatial scale
  is its text, made outside the widget, and empty when there is none) and the rectangles
  filled, bin by bin in the order of drawing. The two one-pixel markers of the target and
  of the hover value, drawn last, are not in the model.
\<close>

record view =
  legendRenderScale :: string
  legendChunks :: string
  hoverSpatialScale :: "nat option"
  fills :: "canvasOp list list"

text \<open>
  The start of a pass: the largest count \<^verbatim>\<open>maxCount\<close> and the totals of the first
  loop, the scale \<^verbatim>\<open>yScale = maxBarHeight / Math.log(1 + maxCount)\<close>, and what the
  closures see from then on.
\<close>

definition measurePass ::
  "config \<Rightarrow> nat \<Rightarrow> nat \<Rightarrow> renderScaleHistogram \<Rightarrow> fault + (canvasPass \<times> nat \<times> nat \<times> nat)" where
  "measurePass cfg canvasWidth canvasHeight histogram =
     (let numBins = numRenderScaleHistogramBins cfg;
          numRows = length (histSpatialScales histogram)
      in case countTotals numBins (histValue histogram) numRows of
           Inl e \<Rightarrow> Inl e
         | Inr (maxCount, totalPresent, totalNotPresent) \<Rightarrow>
            (case jsDivide (real canvasHeight) (ln (1 + real maxCount)) of
               Inl e \<Rightarrow> Inl e
             | Inr scale \<Rightarrow>
                 Inr (\<lparr>bins = numBins, width = canvasWidth, height = canvasHeight,
                       yScale = scale, histogramData = histValue histogram,
                       spatialScales = histSpatialScales histogram\<rparr>,
                      maxCount, totalPresent, totalNotPresent)))"

definition renderView ::
  "config \<Rightarrow> widgetClass \<Rightarrow> nat \<Rightarrow> nat \<Rightarrow> widget \<Rightarrow> renderScaleHistogram \<Rightarrow> fault + view" where
  "renderView cfg cls canvasWidth canvasHeight w histogram =
     (let targetValue = target w;
          hoverValue = hoverTarget w;
          valueString = formatPixelNumber
            (case hoverValue of None \<Rightarrow> targetValue | Some hv \<Rightarrow> fst hv)
      in case measurePass cfg canvasWidth canvasHeight histogram of
           Inl e \<Rightarrow> Inl e
         | Inr (P, maxCount, totalPresent, totalNotPresent) \<Rightarrow>
            (case findHoverSpatialScale cfg (logScaleOrigin cfg cls) P hoverValue of
               Inl e \<Rightarrow> Inl e
             | Inr hovered \<Rightarrow>
                (case chunkTotals P hovered
                        (int totalPresent,
                         int totalNotPresent - int (fakeChunkCount histogram)) of
                   Inl e \<Rightarrow> Inl e
                 | Inr (present, notPresent) \<Rightarrow>
                    (case drawBins P hovered [0..<bins P] of
                       Inl e \<Rightarrow> Inl e
                     | Inr rects \<Rightarrow>
                         Inr \<lparr>legendRenderScale = valueString @ '' '' @ unitOfTarget cls,
                              legendChunks =
                                showInt present @ ''/'' @ showInt (present + notPresent),
                              hoverSpatialScale = hovered,
                              fills = rects\<rparr>))))"

text \<open>
  \<^verbatim>\<open>updateView\<close>: a histogram that is not visible is zeroed in place, then the pass
  runs on the buffer as it is.
\<close>

definition updateView ::
  "config \<Rightarrow> widgetClass \<Rightarrow> nat \<Rightarrow> nat \<Rightarrow> widget \<Rightarrow> renderScaleHistogram
     \<Rightarrow> renderScaleHistogram \<times> (fault + view)" where
  "updateView cfg cls canvasWidth canvasHeight w histogram =
     (let histogram' =
            (if \<not> histVisible histogram
             then histogram\<lparr>histValue := map (\<lambda>_. 0) (histValue histogram)\<rparr>
             else histogram)
      in (histogram', renderView cfg cls canvasWidth canvasHeight w histogram'))"

text \<open>
  The invariant of the buffer and its registry, as the specification gives it: the keys of
  the map are distinct, every row index lies below the number of registered keys, and the
  buffer holds \<open>2 \<times> bins\<close> counters for every row.
\<close>

definition histogram_wf :: "config \<Rightarrow> renderScaleHistogram \<Rightarrow> bool" where
  "histogram_wf cfg histogram \<longleftrightarrow>
     distinct (map fst (histSpatialScales histogram))
     \<and> list_all (\<lambda>entry. snd entry < length (histSpatialScales histogram))
          (histSpatialScales histogram)
     \<and> 2 * numRenderScaleHistogramBins cfg * length (histSpatialScales histogram)
         \<le> length (histValue histogram)"

subsection \<open>Notions the properties are stated with\<close>

text \<open>The counters of a row and a bin, where the buffer holds them.\<close>

definition presentAt :: "nat \<Rightarrow> 32 word list \<Rightarrow> nat \<Rightarrow> nat \<Rightarrow> nat" where
  "presentAt numBins counters row bin = unat (counters ! (row * numBins * 2 + bin))"

definition notPresentAt :: "nat \<Rightarrow> 32 word list \<Rightarrow> nat \<Rightarrow> nat \<Rightarrow> nat" where
  "notPresentAt numBins counters row bin = unat (counters ! (row * numBins * 2 + bin + numBins))"

text \<open>The count of a bin, summed over the rows below \<open>numRows\<close>.\<close>

definition binTotal :: "nat \<Rightarrow> 32 word list \<Rightarrow> nat \<Rightarrow> nat \<Rightarrow> nat" where
  "binTotal numBins counters numRows bin =
     (\<Sum>row \<leftarrow> [0..<numRows]. presentAt numBins counters row bin
        + notPresentAt numBins counters row bin)"

text \<open>
  The chunks present and not present in the given rows, over all bins; and the fraction of
  the legend as the specification has it, for all rows or for the row of the hovered
  series, with the fake chunks taken out of the chunks that are not present in both cases.
\<close>

definition rowsTotals :: "nat \<Rightarrow> 32 word list \<Rightarrow> nat list \<Rightarrow> int \<times> int" where
  "rowsTotals numBins counters rows =
     ((\<Sum>bin \<leftarrow> [0..<numBins]. \<Sum>row \<leftarrow> rows. int (presentAt numBins counters row bin)),
      (\<Sum>bin \<leftarrow> [0..<numBins]. \<Sum>row \<leftarrow> rows. int (notPresentAt numBins counters row bin)))"

definition legendChunks_spec :: "config \<Rightarrow> renderScaleHistogram \<Rightarrow> nat option \<Rightarrow> string" where
  "legendChunks_spec cfg histogram hovered =
     (let rows = (case hovered of
                    None \<Rightarrow> [0..<length (histSpatialScales histogram)]
                  | Some spatialScale \<Rightarrow>
                     (case map_of (histSpatialScales histogram) spatialScale of
                        None \<Rightarrow> [] | Some row \<Rightarrow> [row]));
          totals = rowsTotals (numRenderScaleHistogramBins cfg) (histValue histogram) rows;
          present = fst totals;
          notPresent = snd totals - int (fakeChunkCount histogram)
      in showInt present @ ''/'' @ showInt (present + notPresent))"

text \<open>
  The bands that a stack of rectangles shows, read back from the rectangles: the series,
  the lower edge \<open>yStart\<close> of its band (where the rectangle of the present chunks ends) and
  the upper edge \<open>yEnd\<close> (where the rectangle of the others begins).
\<close>

fun drawnBands :: "canvasOp list \<Rightarrow> (nat \<times> real \<times> real) list" where
  "drawnBands (FillRect (NotPresentColor s sat) x yEnd w h
       # FillRect (PresentColor s' sat') x' ySplit w' h' # ops) =
     (s, ySplit + h', yEnd) # drawnBands ops"
| "drawnBands ops = []"

text \<open>The first band, in the order of drawing, that holds the pointer's y pixel.\<close>

fun firstBandAt :: "real \<Rightarrow> (nat \<times> real \<times> real) list \<Rightarrow> nat option" where
  "firstBandAt y [] = None"
| "firstBandAt y ((s, yStart, yEnd) # bands) =
     (if yEnd \<le> y \<and> y \<le> yStart then Some s else firstBandAt y bands)"

text \<open>
  The bands of a stack follow one another from the baseline \<open>y\<close> upwards: every band
  starts where the band before it ends, and ends no lower than it starts.
\<close>

fun stackedFrom :: "real \<Rightarrow> (nat \<times> real \<times> real) list \<Rightarrow> bool" where
  "stackedFrom y [] = True"
| "stackedFrom y ((s, yStart, yEnd) # bands) = (yStart = y \<and> yEnd \<le> yStart \<and> stackedFrom yEnd bands)"

text \<open>
  What the loops of a pass need to stay inside the buffer: every registered row lies below
  the number of keys, and the buffer has the counters of that many rows.
\<close>

definition rows_in_buffer :: "canvasPass \<Rightarrow> bool" where
  "rows_in_buffer P \<longleftrightarrow>
     list_all (\<lambda>entry. snd entry < length (spatialScales P)) (spatialScales P)
     \<and> 2 * bins P * length (spatialScales P) \<le> length (histogramData P)"

subsection \<open>Concrete inputs\<close>

text \<open>
  One bin of width 1 from the origin 0, on a canvas of 10 by 10 pixels. Two series, with
  the keys 9 (row 0: one chunk present) and 10 (row 1: two chunks not present, one of them
  counted as fake); the pass that \<^const>\<open>measurePass\<close> makes of them; and a pass over a
  buffer where the series 9 has no chunk.
\<close>

definition exampleConfig :: config where
  "exampleConfig = logConfig 1 1 0"

definition exampleHistogram :: renderScaleHistogram where
  "exampleHistogram =
     \<lparr>histValue = [1, 0, 0, 2], histSpatialScales = [(9, 0), (10, 1)],
      histVisible = True, fakeChunkCount = 1\<rparr>"

definition examplePass :: canvasPass where
  "examplePass = \<lparr>bins = 1, width = 10, height = 10, yScale = 10 / ln 4,
       histogramData = [1, 0, 0, 2], spatialScales = [(9, 0), (10, 1)]\<rparr>"

definition sparsePass :: canvasPass where
  "sparsePass = \<lparr>bins = 1, width = 10, height = 10, yScale = 10 / ln 2,
       histogramData = [0, 0, 1, 0], spatialScales = [(9, 0), (10, 1)]\<rparr>"

section \<open>Properties\<close>

subsection \<open>The pixel number label\<close>

lemma js_trunc_of_int: "js_trunc (of_int k) = k"
  by (simp add: js_trunc_def)

lemma toInt32_in_range:
  assumes "- (2 ^ 31) \<le> js_trunc x" and "js_trunc x < 2 ^ 31"
  shows "toInt32 x = js_trunc x"
  using assms by (simp add: toInt32_def sint_sbintrunc' signed_take_bit_int_eq_self)

lemma toInt32_of_int:
  "- (2 ^ 31) \<le> k \<Longrightarrow> k < 2 ^ 31 \<Longrightarrow> toInt32 (of_int k) = k"
  by (simp add: toInt32_in_range js_trunc_of_int)

lemma js_trunc_bounds:
  assumes "real_of_int lo \<le> x" and "x < real_of_int hi"
  shows "lo \<le> js_trunc x" and "js_trunc x \<le> hi"
proof -
  show "lo \<le> js_trunc x"
    using assms(1) by (auto simp: js_trunc_def le_floor_iff le_ceiling_iff intro: order_trans)
  show "js_trunc x \<le> hi"
    using assms(2) by (auto simp: js_trunc_def ceiling_le_iff floor_le_iff)
qed

lemma log2_int32_double:
  assumes "2 powr (- 1074) \<le> x" and "x < 2 powr 1024"
  shows "log2_int32 x = js_trunc (log 2 x)"
proof -
  have pos: "0 < x"
    using assms(1) by (rule less_le_trans [rotated]) simp
  have lo: "real_of_int (- 1074) \<le> log 2 x"
    using assms(1) pos by (simp add: le_log_iff)
  have hi: "log 2 x < real_of_int 1024"
    using assms(2) pos by (simp add: log_less_iff)
  have "- 1074 \<le> js_trunc (log 2 x)" and "js_trunc (log 2 x) \<le> 1024"
    using js_trunc_bounds [OF lo hi] by simp_all
  then have "toInt32 (log 2 x) = js_trunc (log 2 x)"
    by (intro toInt32_in_range) simp_all
  with pos show ?thesis by (simp add: log2_int32_def)
qed

lemma js_trunc_log2_large: "1 \<le> x \<Longrightarrow> js_trunc (log 2 x) = \<lfloor>log 2 x\<rfloor>"
  by (simp add: js_trunc_def not_less zero_le_log_cancel_iff)

lemma js_trunc_log2_small: "0 < x \<Longrightarrow> x < 1 \<Longrightarrow> js_trunc (log 2 x) = \<lceil>log 2 x\<rceil>"
  by (simp add: js_trunc_def log_less_zero_cancel_iff)

lemma log2_pow: "log 2 (2 ^ n) = real n"
  by (simp add: log_pow_cancel)

lemma log2_int32_pow:
  assumes "n < 1024"
  shows "log2_int32 (2 ^ n) = int n"
proof -
  have "toInt32 (real_of_int (int n)) = int n"
    using assms by (intro toInt32_of_int) simp_all
  then show ?thesis by (simp add: log2_int32_def log2_pow)
qed

lemma formatPixelNumber_512: "formatPixelNumber 512 = ''512''"
  by (simp add: formatPixelNumber_def showInt_def showNat.simps digitChar_def)

lemma formatPixelNumber_1024: "formatPixelNumber 1024 = ''1024''"
  by (simp add: formatPixelNumber_def showInt_def showNat.simps digitChar_def)

lemma formatPixelNumber_2048: "formatPixelNumber 2048 = ''1.0p11''"
proof -
  have "log2_int32 (2 ^ 11) = int 11" by (rule log2_int32_pow) simp
  then have e: "log2_int32 2048 = 11" by simp
  show ?thesis
    by (simp add: formatPixelNumber_def e numberToStringFixed_def showInt_def
        showNat.simps digitChar_def Let_def round_def)
qed

lemma log2_half: "log 2 (1 / 2) = - 1"
  by (simp add: log_divide)

lemma formatPixelNumber_half: "formatPixelNumber (1 / 2) = ''1.0p-1''"
proof -
  have "toInt32 (real_of_int (- 1)) = - 1" by (rule toInt32_of_int) simp_all
  then have e: "log2_int32 (1 / 2) = - 1" by (simp add: log2_int32_def log2_half)
  show ?thesis
    by (simp add: formatPixelNumber_def e numberToStringFixed_def showInt_def
        showNat.simps digitChar_def Let_def round_def powr_minus)
qed

lemma log2_three_quarters: "- 1 < log 2 (3 / 4)" "log 2 (3 / 4) < 0"
proof -
  show "- 1 < log 2 (3 / 4)" by (simp add: less_log_iff powr_minus)
  show "log 2 (3 / 4) < 0" by (simp add: log_less_zero_cancel_iff)
qed

lemma ceiling_log2_three_quarters: "\<lceil>log 2 (3 / 4)\<rceil> = 0"
  using log2_three_quarters by (simp add: ceiling_eq_iff)

lemma floor_log2_three_quarters: "\<lfloor>log 2 (3 / 4)\<rfloor> = - 1"
  using log2_three_quarters by (simp add: floor_eq_iff)

lemma log2_int32_three_quarters: "log2_int32 (3 / 4) = 0"
proof -
  have "js_trunc (log 2 (3 / 4)) = 0"
    using log2_three_quarters(2) by (simp add: js_trunc_def ceiling_log2_three_quarters)
  then show ?thesis by (simp add: log2_int32_def toInt32_in_range)
qed

lemma formatPixelNumber_three_quarters: "formatPixelNumber (3 / 4) = ''0.8p0''"
  by (simp add: formatPixelNumber_def log2_int32_three_quarters numberToStringFixed_def
      showInt_def showNat.simps digitChar_def Let_def round_def)

lemma formatPixelNumber_spec_three_quarters: "formatPixelNumber_spec (3 / 4) = ''1.5p-1''"
  by (simp add: formatPixelNumber_spec_def floor_log2_three_quarters numberToStringFixed_def
      showInt_def showNat.simps digitChar_def Let_def round_def powr_minus)

text \<open>
  Counterexample to C2 as stated: at \<open>x = 3/4\<close> the logarithm is not an integer, the
  source's \<^verbatim>\<open>Math.log2(x) | 0\<close> gives the exponent 0 and the label \<^verbatim>\<open>0.8p0\<close>, where
  the exponent \<open>\<lfloor>log\<^sub>2 x\<rfloor> = -1\<close> of the claim gives \<^verbatim>\<open>1.5p-1\<close>.
\<close>

theorem formatPixelNumber_floor_counterexample:
  "formatPixelNumber (3 / 4) = ''0.8p0'' \<and> formatPixelNumber_spec (3 / 4) = ''1.5p-1''
   \<and> formatPixelNumber (3 / 4) \<noteq> formatPixelNumber_spec (3 / 4)"
  by (simp add: formatPixelNumber_three_quarters formatPixelNumber_spec_three_quarters)

text \<open>
  C2, amended: for every positive \<open>x\<close> in the range of the doubles,
  \<^const>\<open>formatPixelNumber\<close> prints the rounded integer when \<open>1 \<le> x \<le> 1024\<close> (1024
  included), and otherwise the coefficient \<open>x / 2\<^sup>e\<close> rounded to one decimal, the letter
  \<^verbatim>\<open>p\<close> and the exponent \<open>e\<close>, where \<open>e\<close> is \<open>log\<^sub>2 x\<close> truncated towards zero: the
  floor of the logarithm above 1024, its ceiling below 1. The four examples of the claim
  hold as they are written.
\<close>

theorem formatPixelNumber_trunc:
  "(2 powr (- 1074) \<le> x \<and> x < 2 powr 1024 \<longrightarrow>
      formatPixelNumber x =
        (if 1 \<le> x \<and> x \<le> 1024 then showInt (round x)
         else if 1024 < x then
           numberToStringFixed (x / 2 powr real_of_int \<lfloor>log 2 x\<rfloor>) 1 @ ''p'' @ showInt \<lfloor>log 2 x\<rfloor>
         else
           numberToStringFixed (x / 2 powr real_of_int \<lceil>log 2 x\<rceil>) 1 @ ''p'' @ showInt \<lceil>log 2 x\<rceil>))
   \<and> formatPixelNumber 512 = ''512'' \<and> formatPixelNumber 2048 = ''1.0p11''
   \<and> formatPixelNumber (1 / 2) = ''1.0p-1'' \<and> formatPixelNumber 1024 = ''1024''"
proof -
  have "formatPixelNumber x =
        (if 1 \<le> x \<and> x \<le> 1024 then showInt (round x)
         else if 1024 < x then
           numberToStringFixed (x / 2 powr real_of_int \<lfloor>log 2 x\<rfloor>) 1 @ ''p'' @ showInt \<lfloor>log 2 x\<rfloor>
         else
           numberToStringFixed (x / 2 powr real_of_int \<lceil>log 2 x\<rceil>) 1 @ ''p'' @ showInt \<lceil>log 2 x\<rceil>)"
    if r: "2 powr (- 1074) \<le> x" "x < 2 powr 1024"
  proof -
    have pos: "0 < x"
      using r(1) by (rule less_le_trans [rotated]) simp
    have e: "log2_int32 x = js_trunc (log 2 x)"
      using r by (rule log2_int32_double)
    consider "1 \<le> x \<and> x \<le> 1024" | "1024 < x" | "x < 1" by linarith
    then show ?thesis
    proof cases
      case 1
      then show ?thesis by (simp add: formatPixelNumber_def)
    next
      case 2
      then have "js_trunc (log 2 x) = \<lfloor>log 2 x\<rfloor>" by (intro js_trunc_log2_large) simp
      with 2 e show ?thesis by (simp add: formatPixelNumber_def Let_def)
    next
      case 3
      then have "js_trunc (log 2 x) = \<lceil>log 2 x\<rceil>" using pos by (intro js_trunc_log2_small)
      with 3 e show ?thesis by (simp add: formatPixelNumber_def Let_def)
    qed
  qed
  then show ?thesis
    by (simp add: formatPixelNumber_512 formatPixelNumber_1024 formatPixelNumber_2048
        formatPixelNumber_half)
qed

text \<open>Witness for C2: the theorem at 4096 and at 3/4, both in the range it asks for.\<close>

theorem formatPixelNumber_trunc_witness:
  "formatPixelNumber 4096 = ''1.0p12'' \<and> formatPixelNumber (3 / 4) = ''0.8p0''"
proof -
  have big: "2 powr (- 1074) \<le> (4096::real) \<and> (4096::real) < 2 powr 1024"
  proof
    have "(2::real) powr (- 1074) \<le> 1" by (simp add: powr_minus field_simps)
    then show "2 powr (- 1074) \<le> (4096::real)" by simp
    have "(2::real) ^ 12 < 2 ^ 1024" by (rule power_strict_increasing) simp_all
    then show "(4096::real) < 2 powr 1024" by simp
  qed
  have small: "2 powr (- 1074) \<le> (3 / 4 :: real) \<and> (3 / 4 :: real) < 2 powr 1024"
  proof
    have "(2::real) powr (- 1074) \<le> 2 powr (- 1)" by (rule powr_mono) simp_all
    then show "2 powr (- 1074) \<le> (3 / 4 :: real)" by (simp add: powr_minus)
    have "(1::real) \<le> 2 powr 1024" by (rule ge_one_powr_ge_zero) simp_all
    then show "(3 / 4 :: real) < 2 powr 1024" by simp
  qed
  have l: "log 2 4096 = 12"
    using log2_pow [of 12] by simp
  have "formatPixelNumber 4096 = ''1.0p12''"
    using formatPixelNumber_trunc [of 4096] big
    by (simp add: l numberToStringFixed_def showInt_def showNat.simps digitChar_def
        Let_def round_def)
  moreover have "formatPixelNumber (3 / 4) = ''0.8p0''"
    using formatPixelNumber_trunc [of "3 / 4"] small
    by (simp add: ceiling_log2_three_quarters numberToStringFixed_def showInt_def
        showNat.simps digitChar_def Let_def round_def)
  ultimately show ?thesis by simp
qed

subsection \<open>The wheel action\<close>

lemma getWheelMoveValue_zero_iff: "getWheelMoveValue cls event = 0 \<longleftrightarrow> deltaY event = 0"
  by (cases cls) (simp_all add: getWheelMoveValue_def)

lemma adjustViaWheel_zero:
  "getWheelMoveValue cls event = 0 \<Longrightarrow> adjustViaWheel cfg cls w event = (w, event)"
  by (simp add: adjustViaWheel_def)

lemma adjustViaWheel_nonzero:
  assumes "getWheelMoveValue cls event \<noteq> 0"
  shows "adjustViaWheel cfg cls w event =
     (w\<lparr>hoverTarget := None,
        target := clampToInterval
          (2 powr logScaleOrigin cfg cls,
           2 powr real_of_int (round (logScaleOrigin cfg cls
              + real (numRenderScaleHistogramBins cfg) * renderScaleHistogramBinSize cfg) - 1))
          (target w * 2 powr sgn (getWheelMoveValue cls event))\<rparr>,
      event\<lparr>defaultPrevented := True\<rparr>)"
  using assms by (simp add: adjustViaWheel_def Let_def)

text \<open>
  C9: when the wheel delta (inverted or not by the class of the widget) is zero,
  \<^const>\<open>adjustViaWheel\<close> changes nothing: the widget, with its target and its hover
  probe, and the event are returned as they came, so the default action of the event is
  not prevented. When the delta is not zero the hover probe is cleared.
\<close>

theorem adjustViaWheel_zero_delta_noop:
  "(getWheelMoveValue cls event = 0 \<longleftrightarrow> deltaY event = 0)
   \<and> (getWheelMoveValue cls event = 0 \<longrightarrow> adjustViaWheel cfg cls w event = (w, event))
   \<and> (getWheelMoveValue cls event \<noteq> 0 \<longrightarrow>
        hoverTarget (fst (adjustViaWheel cfg cls w event)) = None)"
  by (simp add: getWheelMoveValue_zero_iff adjustViaWheel_zero adjustViaWheel_nonzero)

text \<open>Witness for C9: a zero delta on the inverting widget, a delta of 1 on the other.\<close>

theorem adjustViaWheel_zero_delta_noop_witness:
  "adjustViaWheel (logConfig 10 1 0) VolumeRenderingRenderScaleWidget
      \<lparr>target = 4, hoverTarget = Some (2, 3)\<rparr> \<lparr>deltaY = 0, defaultPrevented = False\<rparr>
     = (\<lparr>target = 4, hoverTarget = Some (2, 3)\<rparr>, \<lparr>deltaY = 0, defaultPrevented = False\<rparr>)
   \<and> hoverTarget (fst (adjustViaWheel (logConfig 10 1 0) RenderScaleWidget
      \<lparr>target = 4, hoverTarget = Some (2, 3)\<rparr> \<lparr>deltaY = 1, defaultPrevented = False\<rparr>)) = None"
proof -
  have z: "getWheelMoveValue VolumeRenderingRenderScaleWidget \<lparr>deltaY = 0, defaultPrevented = False\<rparr> = 0"
    by (simp add: getWheelMoveValue_def)
  have n: "getWheelMoveValue RenderScaleWidget \<lparr>deltaY = 1, defaultPrevented = False\<rparr> \<noteq> 0"
    by (simp add: getWheelMoveValue_def)
  show ?thesis
    using adjustViaWheel_zero_delta_noop [of VolumeRenderingRenderScaleWidget
        "\<lparr>deltaY = 0, defaultPrevented = False\<rparr>" "logConfig 10 1 0"
        "\<lparr>target = 4, hoverTarget = Some (2, 3)\<rparr>"]
      adjustViaWheel_zero_delta_noop [of RenderScaleWidget
        "\<lparr>deltaY = 1, defaultPrevented = False\<rparr>" "logConfig 10 1 0"
        "\<lparr>target = 4, hoverTarget = Some (2, 3)\<rparr>"]
      z n by simp
qed

lemma clampToInterval_bounds:
  "lo \<le> hi \<Longrightarrow> lo \<le> clampToInterval (lo, hi) v \<and> clampToInterval (lo, hi) v \<le> hi"
  by (simp add: clampToInterval_def)

lemma ten_bins_interval:
  assumes "numRenderScaleHistogramBins cfg = 10" "renderScaleHistogramBinSize cfg = 1"
    "renderScaleHistogramOrigin cfg = 0"
  shows "2 powr logScaleOrigin cfg RenderScaleWidget = 1"
    and "2 powr real_of_int (round (logScaleOrigin cfg RenderScaleWidget
              + real (numRenderScaleHistogramBins cfg) * renderScaleHistogramBinSize cfg) - 1) = 512"
  using assms by (simp_all add: logScaleOrigin_def)

lemma ten_bins_step:
  assumes "numRenderScaleHistogramBins cfg = 10" "renderScaleHistogramBinSize cfg = 1"
    "renderScaleHistogramOrigin cfg = 0" "deltaY event \<noteq> 0"
  shows "target (fst (adjustViaWheel cfg RenderScaleWidget w event))
     = clampToInterval (1, 512) (target w * 2 powr sgn (deltaY event))"
proof -
  have "getWheelMoveValue RenderScaleWidget event \<noteq> 0"
    using assms(4) by (simp add: getWheelMoveValue_def)
  then show ?thesis
    using ten_bins_interval [OF assms(1-3)]
    by (simp add: adjustViaWheel_nonzero) (simp add: getWheelMoveValue_def)
qed

lemma ten_bins_increase:
  assumes "numRenderScaleHistogramBins cfg = 10" "renderScaleHistogramBinSize cfg = 1"
    "renderScaleHistogramOrigin cfg = 0" "0 < deltaY event" "target w = min (4 * 2 ^ k) 512"
  shows "target (fst (adjustViaWheel cfg RenderScaleWidget w event)) = min (4 * 2 ^ Suc k) 512"
proof -
  have "deltaY event \<noteq> 0" using assms(4) by simp
  then have "target (fst (adjustViaWheel cfg RenderScaleWidget w event))
     = clampToInterval (1, 512) (target w * 2)"
    using ten_bins_step [OF assms(1-3)] assms(4) by simp
  moreover have "(1::real) \<le> 4 * 2 ^ k"
  proof -
    have "(1::real) \<le> 2 ^ k" by simp
    then show ?thesis by linarith
  qed
  ultimately show ?thesis
    using assms(5) by (simp add: clampToInterval_def min_def max_def)
qed

lemma ten_bins_increases:
  assumes "numRenderScaleHistogramBins cfg = 10" "renderScaleHistogramBinSize cfg = 1"
    "renderScaleHistogramOrigin cfg = 0"
  shows "list_all (\<lambda>event. 0 < deltaY event) events \<Longrightarrow> target w = min (4 * 2 ^ k) 512 \<Longrightarrow>
    target (adjustAll cfg RenderScaleWidget w events) = min (4 * 2 ^ (k + length events)) 512"
proof (induction events arbitrary: w k)
  case Nil
  then show ?case by simp
next
  case (Cons event events)
  have "target (fst (adjustViaWheel cfg RenderScaleWidget w event)) = min (4 * 2 ^ Suc k) 512"
    using Cons.prems by (intro ten_bins_increase [OF assms]) simp_all
  then have "target (adjustAll cfg RenderScaleWidget (fst (adjustViaWheel cfg RenderScaleWidget w event)) events)
     = min (4 * 2 ^ (Suc k + length events)) 512"
    using Cons.prems by (intro Cons.IH) simp_all
  then show ?case by simp
qed

lemma saturated: "7 \<le> n \<Longrightarrow> min (4 * 2 ^ n) (512::real) = 512"
proof -
  assume "7 \<le> n"
  then have "(2::real) ^ 7 \<le> 2 ^ n" by (intro power_increasing) simp_all
  then show ?thesis by simp
qed

text \<open>
  C4: a wheel event whose move value is not zero sets the target to the old target times
  \<open>2\<close> to the sign of the move value, clamped to the interval from \<open>2 powr origin\<close> to
  \<open>2 powr (logScaleMax - 1)\<close>, with \<open>logScaleMax = round (origin + bins \<times> binSize)\<close>. With 10 bins of width 1 and origin 0
  the bounds are 1 and 512, every adjusted target lies between them, and from the target
  4 any \<open>n\<close> increases give \<open>min (4 \<times> 2\<^sup>n) 512\<close>: 8 after one, 16 after two, 512 from the
  seventh on.
\<close>

theorem adjustViaWheel_clamps:
  "(getWheelMoveValue cls event \<noteq> 0 \<longrightarrow>
      target (fst (adjustViaWheel cfg cls w event)) =
        clampToInterval
          (2 powr logScaleOrigin cfg cls,
           2 powr real_of_int (round (logScaleOrigin cfg cls
              + real (numRenderScaleHistogramBins cfg) * renderScaleHistogramBinSize cfg) - 1))
          (target w * 2 powr sgn (getWheelMoveValue cls event)))
   \<and> (numRenderScaleHistogramBins cfg = 10 \<and> renderScaleHistogramBinSize cfg = 1
        \<and> renderScaleHistogramOrigin cfg = 0 \<longrightarrow>
        2 powr logScaleOrigin cfg RenderScaleWidget = 1
        \<and> 2 powr real_of_int (round (logScaleOrigin cfg RenderScaleWidget
              + real (numRenderScaleHistogramBins cfg) * renderScaleHistogramBinSize cfg) - 1) = 512
        \<and> (deltaY event \<noteq> 0 \<longrightarrow>
              1 \<le> target (fst (adjustViaWheel cfg RenderScaleWidget w event))
              \<and> target (fst (adjustViaWheel cfg RenderScaleWidget w event)) \<le> 512)
        \<and> (target w = 4 \<and> list_all (\<lambda>e. 0 < deltaY e) events \<longrightarrow>
              target (adjustAll cfg RenderScaleWidget w events) = min (4 * 2 ^ length events) 512
              \<and> target (adjustAll cfg RenderScaleWidget w events) \<le> 512
              \<and> (length events = 1 \<longrightarrow> target (adjustAll cfg RenderScaleWidget w events) = 8)
              \<and> (length events = 2 \<longrightarrow> target (adjustAll cfg RenderScaleWidget w events) = 16)
              \<and> (7 \<le> length events \<longrightarrow>
                    target (adjustAll cfg RenderScaleWidget w events) = 512)))"
proof (intro conjI impI)
  assume "getWheelMoveValue cls event \<noteq> 0"
  then show "target (fst (adjustViaWheel cfg cls w event)) =
        clampToInterval
          (2 powr logScaleOrigin cfg cls,
           2 powr real_of_int (round (logScaleOrigin cfg cls
              + real (numRenderScaleHistogramBins cfg) * renderScaleHistogramBinSize cfg) - 1))
          (target w * 2 powr sgn (getWheelMoveValue cls event))"
    by (simp add: adjustViaWheel_nonzero)
next
  assume c: "numRenderScaleHistogramBins cfg = 10 \<and> renderScaleHistogramBinSize cfg = 1
        \<and> renderScaleHistogramOrigin cfg = 0"
  then have c1: "numRenderScaleHistogramBins cfg = 10" and c2: "renderScaleHistogramBinSize cfg = 1"
    and c3: "renderScaleHistogramOrigin cfg = 0" by simp_all
  show "2 powr logScaleOrigin cfg RenderScaleWidget = 1"
    by (rule ten_bins_interval(1) [OF c1 c2 c3])
  show "2 powr real_of_int (round (logScaleOrigin cfg RenderScaleWidget
              + real (numRenderScaleHistogramBins cfg) * renderScaleHistogramBinSize cfg) - 1) = 512"
    by (rule ten_bins_interval(2) [OF c1 c2 c3])
  {
    assume "deltaY event \<noteq> 0"
    then have "target (fst (adjustViaWheel cfg RenderScaleWidget w event))
       = clampToInterval (1, 512) (target w * 2 powr sgn (deltaY event))"
      by (rule ten_bins_step [OF c1 c2 c3])
    then show "1 \<le> target (fst (adjustViaWheel cfg RenderScaleWidget w event))"
      and "target (fst (adjustViaWheel cfg RenderScaleWidget w event)) \<le> 512"
      using clampToInterval_bounds [of 1 512] by simp_all
  }
  {
    assume "target w = 4 \<and> list_all (\<lambda>e. 0 < deltaY e) events"
    then have "target (adjustAll cfg RenderScaleWidget w events)
       = min (4 * 2 ^ (0 + length events)) 512"
      by (intro ten_bins_increases [OF c1 c2 c3]) simp_all
    then show f: "target (adjustAll cfg RenderScaleWidget w events) = min (4 * 2 ^ length events) 512"
      by simp
    then show "target (adjustAll cfg RenderScaleWidget w events) \<le> 512" by simp
    {
      assume "length events = 1"
      with f show "target (adjustAll cfg RenderScaleWidget w events) = 8" by simp
    }
    {
      assume "length events = 2"
      with f show "target (adjustAll cfg RenderScaleWidget w events) = 16" by simp
    }
    {
      assume "7 \<le> length events"
      with f show "target (adjustAll cfg RenderScaleWidget w events) = 512"
        by (simp add: saturated)
    }
  }
qed

text \<open>Witness for C4: one decrease, two increases and twenty increases from the target 4.\<close>

theorem adjustViaWheel_clamps_witness:
  "target (fst (adjustViaWheel (logConfig 10 1 0) RenderScaleWidget
       \<lparr>target = 4, hoverTarget = None\<rparr> \<lparr>deltaY = - 3, defaultPrevented = False\<rparr>)) = 2
   \<and> target (adjustAll (logConfig 10 1 0) RenderScaleWidget \<lparr>target = 4, hoverTarget = None\<rparr>
        [\<lparr>deltaY = 1, defaultPrevented = False\<rparr>, \<lparr>deltaY = 3, defaultPrevented = False\<rparr>]) = 16
   \<and> target (adjustAll (logConfig 10 1 0) RenderScaleWidget \<lparr>target = 4, hoverTarget = None\<rparr>
        (replicate 20 \<lparr>deltaY = 1, defaultPrevented = False\<rparr>)) = 512"
proof -
  let ?w = "\<lparr>target = 4, hoverTarget = None\<rparr>"
  let ?up = "\<lparr>deltaY = 1, defaultPrevented = False\<rparr>"
  let ?down = "\<lparr>deltaY = - 3, defaultPrevented = False\<rparr>"
  have c: "numRenderScaleHistogramBins (logConfig 10 1 0) = 10
      \<and> renderScaleHistogramBinSize (logConfig 10 1 0) = 1
      \<and> renderScaleHistogramOrigin (logConfig 10 1 0) = 0"
    by (simp add: logConfig_def)
  have d: "getWheelMoveValue RenderScaleWidget ?down \<noteq> 0"
    by (simp add: getWheelMoveValue_def)
  have "target (fst (adjustViaWheel (logConfig 10 1 0) RenderScaleWidget ?w ?down)) = 2"
    using adjustViaWheel_clamps [of RenderScaleWidget ?down "logConfig 10 1 0" ?w "[]"] c d
    by (simp add: getWheelMoveValue_def clampToInterval_def powr_minus)
  moreover have "target (adjustAll (logConfig 10 1 0) RenderScaleWidget ?w
        [?up, \<lparr>deltaY = 3, defaultPrevented = False\<rparr>]) = 16"
    using adjustViaWheel_clamps [of RenderScaleWidget ?up "logConfig 10 1 0" ?w
        "[?up, \<lparr>deltaY = 3, defaultPrevented = False\<rparr>]"] c
    by simp
  moreover have "target (adjustAll (logConfig 10 1 0) RenderScaleWidget ?w (replicate 20 ?up)) = 512"
    using adjustViaWheel_clamps [of RenderScaleWidget ?up "logConfig 10 1 0" ?w
        "replicate 20 ?up"] c
    by (simp add: list_all_iff)
  ultimately show ?thesis by simp
qed

subsection \<open>The loops of the draw pass\<close>

lemma counter_in_buffer:
  assumes "row < numRows" and "bin < nb" and "2 * nb * numRows \<le> length d"
  shows "row * nb * 2 + bin + nb < length d"
proof -
  have "row * nb * 2 + bin + nb < row * nb * 2 + 2 * nb"
    using assms(2) by simp
  also have "\<dots> = Suc row * (2 * nb)"
    by (simp add: algebra_simps)
  also have "\<dots> \<le> numRows * (2 * nb)"
    using assms(1) by (intro mult_le_mono1) simp
  also have "\<dots> = 2 * nb * numRows"
    by (simp add: algebra_simps)
  also note assms(3)
  finally show ?thesis .
qed

lemma readCounts_in_buffer:
  assumes "row < numRows" and "bin < nb" and "2 * nb * numRows \<le> length d"
  shows "readCounts d (row * nb * 2 + bin) nb = Inr (presentAt nb d row bin, notPresentAt nb d row bin)"
  using counter_in_buffer [OF assms] by (simp add: readCounts_def presentAt_def notPresentAt_def)

lemma rowLoop_sums:
  assumes "bin < nb" and "2 * nb * numRows \<le> length d"
  shows "list_all (\<lambda>row. row < numRows) rows \<Longrightarrow>
    rowLoop nb d bin rows (c, tp, tnp) =
      Inr (c + (\<Sum>row \<leftarrow> rows. presentAt nb d row bin + notPresentAt nb d row bin),
           tp + (\<Sum>row \<leftarrow> rows. presentAt nb d row bin),
           tnp + (\<Sum>row \<leftarrow> rows. notPresentAt nb d row bin))"
proof (induction rows arbitrary: c tp tnp)
  case Nil
  then show ?case by simp
next
  case (Cons row rows)
  then have "row < numRows" and rest: "list_all (\<lambda>row. row < numRows) rows" by simp_all
  then have "readCounts d (row * nb * 2 + bin) nb
      = Inr (presentAt nb d row bin, notPresentAt nb d row bin)"
    using assms by (intro readCounts_in_buffer)
  then show ?case
    using Cons.IH [OF rest] by (simp add: add.assoc)
qed

lemma rowLoop_all_rows:
  assumes "bin < nb" and "2 * nb * numRows \<le> length d"
  shows "rowLoop nb d bin [0..<numRows] (0, tp, tnp) =
      Inr (binTotal nb d numRows bin,
           tp + (\<Sum>row \<leftarrow> [0..<numRows]. presentAt nb d row bin),
           tnp + (\<Sum>row \<leftarrow> [0..<numRows]. notPresentAt nb d row bin))"
proof -
  have "list_all (\<lambda>row. row < numRows) [0..<numRows]" by (simp add: list_all_iff)
  then show ?thesis
    using rowLoop_sums [OF assms, of "[0..<numRows]" 0 tp tnp] by (simp add: binTotal_def)
qed

lemma binLoop_sums:
  assumes "2 * nb * numRows \<le> length d"
  shows "list_all (\<lambda>bin. bin < nb) bs \<Longrightarrow>
    binLoop nb d numRows bs (m, tp, tnp) =
      Inr (fold max (map (binTotal nb d numRows) bs) m,
           tp + (\<Sum>bin \<leftarrow> bs. \<Sum>row \<leftarrow> [0..<numRows]. presentAt nb d row bin),
           tnp + (\<Sum>bin \<leftarrow> bs. \<Sum>row \<leftarrow> [0..<numRows]. notPresentAt nb d row bin))"
proof (induction bs arbitrary: m tp tnp)
  case Nil
  then show ?case by simp
next
  case (Cons bin bs)
  then have "bin < nb" and rest: "list_all (\<lambda>bin. bin < nb) bs" by simp_all
  then have "rowLoop nb d bin [0..<numRows] (0, tp, tnp) =
      Inr (binTotal nb d numRows bin,
           tp + (\<Sum>row \<leftarrow> [0..<numRows]. presentAt nb d row bin),
           tnp + (\<Sum>row \<leftarrow> [0..<numRows]. notPresentAt nb d row bin))"
    using assms by (intro rowLoop_all_rows)
  then show ?case
    using Cons.IH [OF rest] by (simp add: add.assoc)
qed

lemma fold_max_Max: "fold max (xs :: nat list) m = Max (insert m (set xs))"
  using Max.set_eq_fold [of m xs] by simp

lemma countTotals_in_buffer:
  assumes "2 * nb * numRows \<le> length d"
  shows "countTotals nb d numRows =
      Inr (Max (insert 1 (binTotal nb d numRows ` {..<nb})),
           (\<Sum>bin \<leftarrow> [0..<nb]. \<Sum>row \<leftarrow> [0..<numRows]. presentAt nb d row bin),
           (\<Sum>bin \<leftarrow> [0..<nb]. \<Sum>row \<leftarrow> [0..<numRows]. notPresentAt nb d row bin))"
proof -
  have "list_all (\<lambda>bin. bin < nb) [0..<nb]" by (simp add: list_all_iff)
  then have "binLoop nb d numRows [0..<nb] (1, 0, 0) =
      Inr (fold max (map (binTotal nb d numRows) [0..<nb]) 1,
           0 + (\<Sum>bin \<leftarrow> [0..<nb]. \<Sum>row \<leftarrow> [0..<numRows]. presentAt nb d row bin),
           0 + (\<Sum>bin \<leftarrow> [0..<nb]. \<Sum>row \<leftarrow> [0..<numRows]. notPresentAt nb d row bin))"
    by (rule binLoop_sums [OF assms])
  moreover have "set (map (binTotal nb d numRows) [0..<nb]) = binTotal nb d numRows ` {..<nb}"
    by (simp add: lessThan_atLeast0)
  ultimately show ?thesis
    by (simp add: countTotals_def fold_max_Max)
qed

lemma rowLoop_fault: "rowLoop nb d bin rows acc \<noteq> Inl DivisionByZero"
proof (induction rows arbitrary: acc)
  case Nil
  then show ?case by simp
next
  case (Cons row rows)
  obtain c tp tnp where acc: "acc = (c, tp, tnp)" by (cases acc)
  show ?case
    using Cons.IH unfolding acc
    by (auto simp: readCounts_def split: sum.splits prod.splits if_splits)
qed

lemma binLoop_max_ge:
  "binLoop nb d numRows bs (m, tp, tnp) = Inr (m', tp', tnp') \<Longrightarrow> m \<le> m'"
proof (induction bs arbitrary: m tp tnp)
  case Nil
  then show ?case by simp
next
  case (Cons bin bs)
  then obtain c tp1 tnp1 where
    "binLoop nb d numRows bs (max c m, tp1, tnp1) = Inr (m', tp', tnp')"
    by (auto split: sum.splits prod.splits)
  then have "max c m \<le> m'" by (rule Cons.IH)
  then show ?case by simp
qed

lemma binLoop_fault: "binLoop nb d numRows bs acc \<noteq> Inl DivisionByZero"
proof (induction bs arbitrary: acc)
  case Nil
  then show ?case by simp
next
  case (Cons bin bs)
  obtain m tp tnp where acc: "acc = (m, tp, tnp)" by (cases acc)
  show ?case
    using Cons.IH rowLoop_fault [of nb d bin "[0..<numRows]" "(0, tp, tnp)"] unfolding acc
    by (auto split: sum.splits prod.splits)
qed

lemma countTotals_max_ge_one:
  "countTotals nb d numRows = Inr (maxCount, tp, tnp) \<Longrightarrow> 1 \<le> maxCount"
  unfolding countTotals_def by (rule binLoop_max_ge)

lemma ln_count_pos: "1 \<le> maxCount \<Longrightarrow> 0 < ln (1 + real maxCount)"
  by simp

lemma measurePass_fault: "measurePass cfg cw ch histogram \<noteq> Inl DivisionByZero"
proof
  assume f: "measurePass cfg cw ch histogram = Inl DivisionByZero"
  let ?t = "countTotals (numRenderScaleHistogramBins cfg) (histValue histogram)
              (length (histSpatialScales histogram))"
  show False
  proof (cases ?t)
    case (Inl e)
    then have "e = DivisionByZero"
      using f by (simp add: measurePass_def Let_def)
    then show False
      using Inl binLoop_fault by (simp add: countTotals_def)
  next
    case (Inr r)
    obtain maxCount tp tnp where r: "r = (maxCount, tp, tnp)" by (cases r)
    have "1 \<le> maxCount" using Inr r by (intro countTotals_max_ge_one) simp
    then have "ln (1 + real maxCount) \<noteq> 0" using ln_count_pos [of maxCount] by simp
    then show False
      using f Inr r by (simp add: measurePass_def Let_def jsDivide_def)
  qed
qed

lemma countToCanvasY_antimono:
  assumes "0 \<le> yScale P" and "a \<le> b"
  shows "countToCanvasY P b \<le> countToCanvasY P a"
proof -
  have "ln (1 + real a) \<le> ln (1 + real b)" using assms(2) by simp
  then have "ln (1 + real a) * yScale P \<le> ln (1 + real b) * yScale P"
    using assms(1) by (rule mult_right_mono)
  then show ?thesis by (simp add: countToCanvasY_def)
qed

lemma set_insertByString: "set (insertByString k xs) = insert k (set xs)"
  by (induction xs) auto

lemma set_defaultSort: "set (defaultSort ks) = set ks"
  unfolding defaultSort_def by (induction ks) (simp_all add: set_insertByString)

lemma set_seriesOrder: "set (seriesOrder reg) = fst ` set reg"
  by (simp add: seriesOrder_def sortedSpatialScales_def set_defaultSort)

lemma getRow_registered:
  assumes "s \<in> fst ` set reg"
  shows "\<exists>row. getRow reg s = Inr row \<and> (s, row) \<in> set reg"
proof -
  from assms have "map_of reg s \<noteq> None" by (simp add: map_of_eq_None_iff)
  then obtain row where "map_of reg s = Some row" by auto
  then show ?thesis by (auto simp: getRow_def dest: map_of_SomeD)
qed

lemma getRow_in_buffer:
  assumes "rows_in_buffer P" and "getRow (spatialScales P) s = Inr row"
  shows "row < length (spatialScales P)"
proof -
  from assms(2) have "map_of (spatialScales P) s = Some row"
    by (simp add: getRow_def split: option.splits)
  then have "(s, row) \<in> set (spatialScales P)" by (rule map_of_SomeD)
  then show ?thesis using assms(1) by (auto simp: rows_in_buffer_def list_all_iff)
qed

lemma readCounts_row:
  assumes "rows_in_buffer P" and "getRow (spatialScales P) s = Inr row" and "i < bins P"
  shows "readCounts (histogramData P) (row * bins P * 2 + i) (bins P)
     = Inr (presentAt (bins P) (histogramData P) row i, notPresentAt (bins P) (histogramData P) row i)"
proof -
  have "row < length (spatialScales P)" using assms(1,2) by (rule getRow_in_buffer)
  moreover have "2 * bins P * length (spatialScales P) \<le> length (histogramData P)"
    using assms(1) unfolding rows_in_buffer_def by blast
  ultimately show ?thesis
    using assms(3) by (intro readCounts_in_buffer)
qed

lemma hover_index: "2 * row * nb + i = row * nb * 2 + (i::nat)"
  by simp

lemma fillBand_drawn:
  assumes "presentCount + notPresentCount \<noteq> 0"
  shows "\<exists>band. fillBand P hov s i presentCount notPresentCount c = Inr band
    \<and> (\<forall>ops. drawnBands (band @ ops) =
        (s, real_of_int (round (countToCanvasY P c)),
            real_of_int (round (countToCanvasY P (c + (presentCount + notPresentCount)))))
        # drawnBands ops)"
proof -
  have "0 < real (presentCount + notPresentCount)"
    using assms by (simp only: of_nat_0_less_iff)
  then have "real (presentCount + notPresentCount) \<noteq> 0" by (rule less_imp_neq [THEN not_sym])
  then show ?thesis
    unfolding fillBand_def Let_def jsDivide_def by simp
qed

lemma hoverLoop_skip:
  assumes "getRow (spatialScales P) s = Inr row"
    and "readCounts (histogramData P) (row * bins P * 2 + i) (bins P) = Inr (p, a)"
    and "p + a = 0"
  shows "hoverLoop P i y (s # keys) c = hoverLoop P i y keys c"
  using assms by (simp add: hover_index)

lemma hoverLoop_band:
  assumes "getRow (spatialScales P) s = Inr row"
    and "readCounts (histogramData P) (row * bins P * 2 + i) (bins P) = Inr (p, a)"
    and "p + a \<noteq> 0"
  shows "hoverLoop P i y (s # keys) c =
    (if real_of_int (round (countToCanvasY P (c + (p + a)))) \<le> y
        \<and> y \<le> real_of_int (round (countToCanvasY P c))
     then Inr (Some s) else hoverLoop P i y keys (c + (p + a)))"
proof -
  show ?thesis using assms by (auto simp: hover_index Let_def)
qed

lemma drawSeries_skip:
  assumes "getRow (spatialScales P) s = Inr row"
    and "readCounts (histogramData P) (row * bins P * 2 + i) (bins P) = Inr (p, a)"
    and "p + a = 0"
  shows "drawSeries P hov i (s # keys) c = drawSeries P hov i keys c"
  using assms by simp

lemma drawSeries_band:
  assumes "getRow (spatialScales P) s = Inr row"
    and "readCounts (histogramData P) (row * bins P * 2 + i) (bins P) = Inr (p, a)"
    and "p + a \<noteq> 0"
  shows "drawSeries P hov i (s # keys) c =
    (case fillBand P hov s i p a c of
       Inl e \<Rightarrow> Inl e
     | Inr band \<Rightarrow>
        (case drawSeries P hov i keys (c + (p + a)) of
           Inl e \<Rightarrow> Inl e
         | Inr ops \<Rightarrow> Inr (band @ ops)))"
proof -
  show ?thesis using assms by (auto simp: Let_def)
qed

lemma loop_reads:
  assumes "hoverLoop P i y (s # keys) c = Inr r \<or> drawSeries P hov i (s # keys) c = Inr ops"
  shows "\<exists>row p a. getRow (spatialScales P) s = Inr row
    \<and> readCounts (histogramData P) (row * bins P * 2 + i) (bins P) = Inr (p, a)"
  using assms by (auto simp: hover_index split: sum.splits)

lemma hoverLoop_drawn:
  "hoverLoop P i y keys c = Inr r \<Longrightarrow> drawSeries P hov i keys c = Inr ops \<Longrightarrow>
     r = firstBandAt y (drawnBands ops)"
proof (induction keys arbitrary: c ops)
  case Nil
  then show ?case by simp
next
  case (Cons s keys)
  from Cons.prems(1) obtain row p a where row: "getRow (spatialScales P) s = Inr row"
    and counts: "readCounts (histogramData P) (row * bins P * 2 + i) (bins P) = Inr (p, a)"
    using loop_reads [of P i y s keys c r hov ops] by blast
  show ?case
  proof (cases "p + a = 0")
    case True
    have "hoverLoop P i y keys c = Inr r"
      using Cons.prems(1) by (simp only: hoverLoop_skip [OF row counts True])
    moreover have "drawSeries P hov i keys c = Inr ops"
      using Cons.prems(2) by (simp only: drawSeries_skip [OF row counts True])
    ultimately show ?thesis by (rule Cons.IH)
  next
    case False
    then obtain band where band: "fillBand P hov s i p a c = Inr band"
      and drawn: "\<And>ops. drawnBands (band @ ops) =
        (s, real_of_int (round (countToCanvasY P c)),
            real_of_int (round (countToCanvasY P (c + (p + a))))) # drawnBands ops"
      using fillBand_drawn [of p a P hov s i c] by blast
    from Cons.prems(2) obtain ops' where
      rest: "drawSeries P hov i keys (c + (p + a)) = Inr ops'" and ops: "ops = band @ ops'"
      unfolding drawSeries_band [OF row counts False] band
      by (auto split: sum.splits)
    show ?thesis
    proof (cases "real_of_int (round (countToCanvasY P (c + (p + a)))) \<le> y
        \<and> y \<le> real_of_int (round (countToCanvasY P c))")
      case True
      then have "r = Some s"
        using Cons.prems(1) unfolding hoverLoop_band [OF row counts False]
        by (auto split: if_splits)
      then show ?thesis using True by (simp add: ops drawn)
    next
      case outside: False
      then have "hoverLoop P i y keys (c + (p + a)) = Inr r"
        using Cons.prems(1) unfolding hoverLoop_band [OF row counts False]
        by (auto split: if_splits)
      then have "r = firstBandAt y (drawnBands ops')" using rest by (rule Cons.IH)
      then show ?thesis using outside by (auto simp: ops drawn)
    qed
  qed
qed

lemma drawSeries_stacked:
  assumes "0 \<le> yScale P"
  shows "drawSeries P hov i keys c = Inr ops \<Longrightarrow>
     stackedFrom (real_of_int (round (countToCanvasY P c))) (drawnBands ops)"
proof (induction keys arbitrary: c ops)
  case Nil
  then show ?case by simp
next
  case (Cons s keys)
  from Cons.prems obtain row p a where row: "getRow (spatialScales P) s = Inr row"
    and counts: "readCounts (histogramData P) (row * bins P * 2 + i) (bins P) = Inr (p, a)"
    using loop_reads [of P i 0 s keys c None hov ops] by blast
  show ?case
  proof (cases "p + a = 0")
    case True
    have "drawSeries P hov i keys c = Inr ops"
      using Cons.prems by (simp only: drawSeries_skip [OF row counts True])
    then show ?thesis by (rule Cons.IH)
  next
    case False
    then obtain band where band: "fillBand P hov s i p a c = Inr band"
      and drawn: "\<And>ops. drawnBands (band @ ops) =
        (s, real_of_int (round (countToCanvasY P c)),
            real_of_int (round (countToCanvasY P (c + (p + a))))) # drawnBands ops"
      using fillBand_drawn [of p a P hov s i c] by blast
    from Cons.prems obtain ops' where
      rest: "drawSeries P hov i keys (c + (p + a)) = Inr ops'" and ops: "ops = band @ ops'"
      unfolding drawSeries_band [OF row counts False] band
      by (auto split: sum.splits)
    have "stackedFrom (real_of_int (round (countToCanvasY P (c + (p + a))))) (drawnBands ops')"
      using rest by (rule Cons.IH)
    moreover have "countToCanvasY P (c + (p + a)) \<le> countToCanvasY P c"
      using assms by (intro countToCanvasY_antimono) simp_all
    then have "real_of_int (round (countToCanvasY P (c + (p + a))))
       \<le> real_of_int (round (countToCanvasY P c))"
      by (simp add: round_mono)
    ultimately show ?thesis by (simp add: ops drawn)
  qed
qed

lemma fillBand_fault_iff:
  "fillBand P hov s i p a c = Inl e \<longleftrightarrow> e = DivisionByZero \<and> p + a = 0"
proof (cases "p + a = 0")
  case True
  then show ?thesis by (auto simp: fillBand_def jsDivide_def)
next
  case False
  then obtain band where "fillBand P hov s i p a c = Inr band"
    using fillBand_drawn [of p a P hov s i c] by blast
  then show ?thesis using False by simp
qed

lemma drawSeries_fault: "drawSeries P hov i keys c \<noteq> Inl DivisionByZero"
proof (induction keys arbitrary: c)
  case Nil
  then show ?case by simp
next
  case (Cons s keys)
  show ?case
  proof (cases "getRow (spatialScales P) s")
    case (Inl e)
    then show ?thesis by (simp add: getRow_def split: option.splits)
  next
    case row: (Inr row)
    show ?thesis
    proof (cases "readCounts (histogramData P) (row * bins P * 2 + i) (bins P)")
      case (Inl e)
      then show ?thesis using row by (simp add: readCounts_def split: if_splits)
    next
      case (Inr counts)
      obtain p a where counts: "readCounts (histogramData P) (row * bins P * 2 + i) (bins P) = Inr (p, a)"
        using Inr by (cases counts) simp
      show ?thesis
      proof (cases "p + a = 0")
        case True
        show ?thesis
          unfolding drawSeries_skip [OF row counts True] by (rule Cons.IH)
      next
        case False
        then obtain band where band: "fillBand P hov s i p a c = Inr band"
          using fillBand_drawn [of p a P hov s i c] by blast
        show ?thesis
          unfolding drawSeries_band [OF row counts False] band
          using Cons.IH [of "c + (p + a)"] by (auto split: sum.splits)
      qed
    qed
  qed
qed

lemma drawBins_fault: "drawBins P hov bs \<noteq> Inl DivisionByZero"
proof (induction bs)
  case Nil
  then show ?case by simp
next
  case (Cons i bs)
  then show ?case
    using drawSeries_fault [of P hov i "seriesOrder (spatialScales P)" 0]
    by (auto split: sum.splits)
qed

lemma drawSeries_in_buffer:
  assumes "rows_in_buffer P" and "i < bins P"
  shows "set keys \<subseteq> fst ` set (spatialScales P) \<Longrightarrow> \<exists>ops. drawSeries P hov i keys c = Inr ops"
proof (induction keys arbitrary: c)
  case Nil
  then show ?case by simp
next
  case (Cons s keys)
  then have "s \<in> fst ` set (spatialScales P)" and keys: "set keys \<subseteq> fst ` set (spatialScales P)"
    by simp_all
  then obtain row where row: "getRow (spatialScales P) s = Inr row"
    using getRow_registered by blast
  have counts: "readCounts (histogramData P) (row * bins P * 2 + i) (bins P)
     = Inr (presentAt (bins P) (histogramData P) row i, notPresentAt (bins P) (histogramData P) row i)"
    using assms(1) row assms(2) by (rule readCounts_row)
  let ?p = "presentAt (bins P) (histogramData P) row i"
  let ?a = "notPresentAt (bins P) (histogramData P) row i"
  show ?case
  proof (cases "?p + ?a = 0")
    case True
    show ?thesis
      unfolding drawSeries_skip [OF row counts True] using keys by (rule Cons.IH)
  next
    case False
    then obtain band where band: "fillBand P hov s i ?p ?a c = Inr band"
      using fillBand_drawn [of ?p ?a P hov s i c] by blast
    obtain ops where "drawSeries P hov i keys (c + (?p + ?a)) = Inr ops"
      using Cons.IH [OF keys] by blast
    then show ?thesis
      unfolding drawSeries_band [OF row counts False] band by simp
  qed
qed

lemma hoverLoop_in_buffer:
  assumes "rows_in_buffer P" and "i < bins P"
  shows "set keys \<subseteq> fst ` set (spatialScales P) \<Longrightarrow> \<exists>r. hoverLoop P i y keys c = Inr r"
proof (induction keys arbitrary: c)
  case Nil
  then show ?case by simp
next
  case (Cons s keys)
  then have "s \<in> fst ` set (spatialScales P)" and keys: "set keys \<subseteq> fst ` set (spatialScales P)"
    by simp_all
  then obtain row where row: "getRow (spatialScales P) s = Inr row"
    using getRow_registered by blast
  have counts: "readCounts (histogramData P) (row * bins P * 2 + i) (bins P)
     = Inr (presentAt (bins P) (histogramData P) row i, notPresentAt (bins P) (histogramData P) row i)"
    using assms(1) row assms(2) by (rule readCounts_row)
  let ?p = "presentAt (bins P) (histogramData P) row i"
  let ?a = "notPresentAt (bins P) (histogramData P) row i"
  show ?case
  proof (cases "?p + ?a = 0")
    case True
    show ?thesis
      unfolding hoverLoop_skip [OF row counts True] using keys by (rule Cons.IH)
  next
    case False
    obtain r where "hoverLoop P i y keys (c + (?p + ?a)) = Inr r"
      using Cons.IH [OF keys] by blast
    then show ?thesis
      unfolding hoverLoop_band [OF row counts False] by simp
  qed
qed

lemma drawBins_in_buffer:
  assumes "rows_in_buffer P"
  shows "list_all (\<lambda>i. i < bins P) bs \<Longrightarrow> \<exists>rects. drawBins P hov bs = Inr rects"
proof (induction bs)
  case Nil
  then show ?case by simp
next
  case (Cons i bs)
  then have "i < bins P" and rest: "list_all (\<lambda>i. i < bins P) bs" by simp_all
  then obtain ops where "drawSeries P hov i (seriesOrder (spatialScales P)) 0 = Inr ops"
    using drawSeries_in_buffer [OF assms, of i "seriesOrder (spatialScales P)" hov 0]
    by (auto simp: set_seriesOrder)
  moreover obtain rects where "drawBins P hov bs = Inr rects"
    using Cons.IH [OF rest] by blast
  ultimately show ?case by simp
qed

lemma drawBins_nth:
  "drawBins P hov bs = Inr rects \<Longrightarrow> k < length bs \<Longrightarrow>
     drawSeries P hov (bs ! k) (seriesOrder (spatialScales P)) 0 = Inr (rects ! k)"
proof (induction bs arbitrary: rects k)
  case Nil
  then show ?case by simp
next
  case (Cons i bs)
  from Cons.prems(1) obtain ops others where
    ops: "drawSeries P hov i (seriesOrder (spatialScales P)) 0 = Inr ops"
    and others: "drawBins P hov bs = Inr others" and rects: "rects = ops # others"
    by (auto split: sum.splits)
  show ?case
  proof (cases k)
    case 0
    then show ?thesis using ops rects by simp
  next
    case (Suc j)
    then have "j < length bs" using Cons.prems(2) by simp
    then have "drawSeries P hov (bs ! j) (seriesOrder (spatialScales P)) 0 = Inr (others ! j)"
      using others by (intro Cons.IH)
    then show ?thesis using Suc rects by simp
  qed
qed

lemma hoverTotalsLoop_sums:
  assumes "rows_in_buffer P" and "row < length (spatialScales P)"
  shows "list_all (\<lambda>i. i < bins P) bs \<Longrightarrow>
    hoverTotalsLoop P (2 * row * bins P) bs (tp, tnp) =
      Inr (tp + (\<Sum>bin \<leftarrow> bs. int (presentAt (bins P) (histogramData P) row bin)),
           tnp + (\<Sum>bin \<leftarrow> bs. int (notPresentAt (bins P) (histogramData P) row bin)))"
proof (induction bs arbitrary: tp tnp)
  case Nil
  then show ?case by simp
next
  case (Cons i bs)
  then have "i < bins P" and rest: "list_all (\<lambda>i. i < bins P) bs" by simp_all
  moreover have "2 * bins P * length (spatialScales P) \<le> length (histogramData P)"
    using assms(1) unfolding rows_in_buffer_def by blast
  ultimately have "readCounts (histogramData P) (row * bins P * 2 + i) (bins P)
     = Inr (presentAt (bins P) (histogramData P) row i, notPresentAt (bins P) (histogramData P) row i)"
    using assms(2) by (intro readCounts_in_buffer)
  then show ?case
    using Cons.IH [OF rest] by (simp add: hover_index add.assoc)
qed

lemma hoverLoop_picks_key: "hoverLoop P i y keys c = Inr (Some s) \<Longrightarrow> s \<in> set keys"
proof (induction keys arbitrary: c)
  case Nil
  then show ?case by simp
next
  case (Cons k keys)
  from Cons.prems obtain row p a where row: "getRow (spatialScales P) k = Inr row"
    and counts: "readCounts (histogramData P) (row * bins P * 2 + i) (bins P) = Inr (p, a)"
    using loop_reads [of P i y k keys c "Some s" None "[]"] by blast
  show ?case
  proof (cases "p + a = 0")
    case True
    have "hoverLoop P i y keys c = Inr (Some s)"
      using Cons.prems by (simp only: hoverLoop_skip [OF row counts True])
    then show ?thesis using Cons.IH by simp
  next
    case False
    have "k = s \<or> hoverLoop P i y keys (c + (p + a)) = Inr (Some s)"
      using Cons.prems unfolding hoverLoop_band [OF row counts False]
      by (auto split: if_splits)
    then show ?thesis using Cons.IH by auto
  qed
qed

lemma findHoverSpatialScale_in_buffer:
  assumes "rows_in_buffer P"
  shows "\<exists>hovered. findHoverSpatialScale cfg origin P hv = Inr hovered
    \<and> (\<forall>s. hovered = Some s \<longrightarrow> s \<in> fst ` set (spatialScales P))"
proof (cases hv)
  case None
  then show ?thesis by (simp add: findHoverSpatialScale_def)
next
  case (Some probe)
  obtain x y where probe: "probe = (x, y)" by (cases probe)
  let ?i = "\<lfloor>getRenderScaleHistogramOffset cfg x origin\<rfloor>"
  show ?thesis
  proof (cases "0 \<le> ?i \<and> ?i < int (bins P)")
    case True
    then have "nat ?i < bins P" by linarith
    then obtain r where r: "hoverLoop P (nat ?i) y (seriesOrder (spatialScales P)) 0 = Inr r"
      using hoverLoop_in_buffer [OF assms, of "nat ?i" "seriesOrder (spatialScales P)" y 0]
      by (auto simp: set_seriesOrder)
    then have "\<forall>s. r = Some s \<longrightarrow> s \<in> fst ` set (spatialScales P)"
      using hoverLoop_picks_key [of P "nat ?i" y "seriesOrder (spatialScales P)" 0]
      by (auto simp: set_seriesOrder)
    then show ?thesis
      using True r Some probe by (simp add: findHoverSpatialScale_def Let_def)
  next
    case False
    then show ?thesis
      using Some probe by (auto simp: findHoverSpatialScale_def Let_def)
  qed
qed

lemma int_sum_list: "int (\<Sum>x \<leftarrow> xs. f x) = (\<Sum>x \<leftarrow> xs. int (f x))"
  by (induction xs) simp_all

lemma chunkTotals_none: "chunkTotals P None totals = Inr totals"
  by (simp add: chunkTotals_def)

lemma chunkTotals_hovered:
  assumes "rows_in_buffer P" and "s \<in> fst ` set (spatialScales P)"
  shows "\<exists>row. map_of (spatialScales P) s = Some row
    \<and> chunkTotals P (Some s) totals = Inr (rowsTotals (bins P) (histogramData P) [row])"
proof -
  obtain row where row: "getRow (spatialScales P) s = Inr row"
    using assms(2) getRow_registered by blast
  then have m: "map_of (spatialScales P) s = Some row"
    by (simp add: getRow_def split: option.splits)
  have "row < length (spatialScales P)" using assms(1) row by (rule getRow_in_buffer)
  moreover have "list_all (\<lambda>i. i < bins P) [0..<bins P]" by (simp add: list_all_iff)
  ultimately have "hoverTotalsLoop P (2 * row * bins P) [0..<bins P] (0, 0) =
      Inr (0 + (\<Sum>bin \<leftarrow> [0..<bins P]. int (presentAt (bins P) (histogramData P) row bin)),
           0 + (\<Sum>bin \<leftarrow> [0..<bins P]. int (notPresentAt (bins P) (histogramData P) row bin)))"
    using assms(1) by (intro hoverTotalsLoop_sums)
  then have "chunkTotals P (Some s) totals = Inr (rowsTotals (bins P) (histogramData P) [row])"
    using row by (simp add: chunkTotals_def rowsTotals_def)
  with m show ?thesis by blast
qed

lemma measurePass_wf:
  assumes "histogram_wf cfg h"
  shows "\<exists>P maxCount tp tnp.
    measurePass cfg cw ch h = Inr (P, maxCount, tp, tnp)
    \<and> bins P = numRenderScaleHistogramBins cfg \<and> width P = cw \<and> height P = ch
    \<and> histogramData P = histValue h \<and> spatialScales P = histSpatialScales h
    \<and> maxCount = Max (insert 1 (binTotal (numRenderScaleHistogramBins cfg) (histValue h)
          (length (histSpatialScales h)) ` {..<numRenderScaleHistogramBins cfg}))
    \<and> 1 \<le> maxCount
    \<and> yScale P = real ch / ln (1 + real maxCount)
    \<and> (int tp, int tnp) = rowsTotals (numRenderScaleHistogramBins cfg) (histValue h)
          [0..<length (histSpatialScales h)]
    \<and> rows_in_buffer P"
proof -
  let ?nb = "numRenderScaleHistogramBins cfg"
  let ?d = "histValue h"
  let ?n = "length (histSpatialScales h)"
  let ?M = "Max (insert 1 (binTotal ?nb ?d ?n ` {..<?nb}))"
  let ?tp = "\<Sum>bin \<leftarrow> [0..<?nb]. \<Sum>row \<leftarrow> [0..<?n]. presentAt ?nb ?d row bin"
  let ?tnp = "\<Sum>bin \<leftarrow> [0..<?nb]. \<Sum>row \<leftarrow> [0..<?n]. notPresentAt ?nb ?d row bin"
  let ?P = "\<lparr>bins = ?nb, width = cw, height = ch, yScale = real ch / ln (1 + real ?M),
           histogramData = ?d, spatialScales = histSpatialScales h\<rparr>"
  have buf: "2 * ?nb * ?n \<le> length ?d"
    using assms unfolding histogram_wf_def by blast
  have rows: "list_all (\<lambda>entry. snd entry < ?n) (histSpatialScales h)"
    using assms unfolding histogram_wf_def by blast
  have t: "countTotals ?nb ?d ?n =
      Inr (?M, (\<Sum>bin \<leftarrow> [0..<?nb]. \<Sum>row \<leftarrow> [0..<?n]. presentAt ?nb ?d row bin),
           (\<Sum>bin \<leftarrow> [0..<?nb]. \<Sum>row \<leftarrow> [0..<?n]. notPresentAt ?nb ?d row bin))"
    using buf by (rule countTotals_in_buffer)
  then have one: "1 \<le> ?M" by (rule countTotals_max_ge_one)
  then have "ln (1 + real ?M) \<noteq> 0" using ln_count_pos [of ?M] by simp
  then have m: "measurePass cfg cw ch h = Inr (?P, ?M, ?tp, ?tnp)"
    using t by (simp add: measurePass_def Let_def jsDivide_def)
  have totals: "(int ?tp, int ?tnp) = rowsTotals ?nb ?d [0..<?n]"
    by (simp add: rowsTotals_def int_sum_list)
  have inb: "rows_in_buffer ?P"
    using buf rows by (simp add: rows_in_buffer_def)
  show ?thesis
    apply (rule exI [of _ ?P])
    apply (rule exI [of _ ?M])
    apply (rule exI [of _ ?tp])
    apply (rule exI [of _ ?tnp])
    using m one totals inb by simp
qed

lemma measurePass_yScale:
  assumes "1 \<le> maxCount" and "yScale P = real (height P) / ln (1 + real maxCount)"
  shows "0 \<le> yScale P" and "countToCanvasY P 0 = real (height P)"
    and "countToCanvasY P maxCount = 0"
proof -
  have pos: "0 < ln (1 + real maxCount)" using assms(1) by (rule ln_count_pos)
  then show "0 \<le> yScale P" using assms(2) by simp
  show "countToCanvasY P 0 = real (height P)" by (simp add: countToCanvasY_def)
  show "countToCanvasY P maxCount = 0"
    using pos assms(2) by (simp add: countToCanvasY_def)
qed

lemma renderView_steps:
  assumes m: "measurePass cfg cw ch h = Inr (P, maxCount, tp, tnp)"
    and f: "findHoverSpatialScale cfg (logScaleOrigin cfg cls) P (hoverTarget w) = Inr hovered"
    and c: "chunkTotals P hovered (int tp, int tnp - int (fakeChunkCount h)) = Inr (present, notPresent)"
    and d: "drawBins P hovered [0..<bins P] = Inr rects"
  shows "renderView cfg cls cw ch w h =
     Inr \<lparr>legendRenderScale = formatPixelNumber
              (case hoverTarget w of None \<Rightarrow> target w | Some hv \<Rightarrow> fst hv) @ '' '' @ unitOfTarget cls,
          legendChunks = showInt present @ ''/'' @ showInt (present + notPresent),
          hoverSpatialScale = hovered, fills = rects\<rparr>"
  using assms by (simp add: renderView_def Let_def)

lemma renderView_wf:
  assumes "histogram_wf cfg h"
  shows "\<exists>P maxCount tp tnp hovered present notPresent rects.
    measurePass cfg cw ch h = Inr (P, maxCount, tp, tnp)
    \<and> rows_in_buffer P \<and> 0 \<le> yScale P
    \<and> findHoverSpatialScale cfg (logScaleOrigin cfg cls) P (hoverTarget w) = Inr hovered
    \<and> (\<forall>s. hovered = Some s \<longrightarrow> s \<in> fst ` set (spatialScales P))
    \<and> chunkTotals P hovered (int tp, int tnp - int (fakeChunkCount h)) = Inr (present, notPresent)
    \<and> drawBins P hovered [0..<bins P] = Inr rects
    \<and> renderView cfg cls cw ch w h =
        Inr \<lparr>legendRenderScale = formatPixelNumber
              (case hoverTarget w of None \<Rightarrow> target w | Some hv \<Rightarrow> fst hv) @ '' '' @ unitOfTarget cls,
          legendChunks = showInt present @ ''/'' @ showInt (present + notPresent),
          hoverSpatialScale = hovered, fills = rects\<rparr>"
proof -
  obtain P maxCount tp tnp where m: "measurePass cfg cw ch h = Inr (P, maxCount, tp, tnp)"
    and hgt: "height P = ch" and one: "1 \<le> maxCount"
    and ys: "yScale P = real ch / ln (1 + real maxCount)" and buf: "rows_in_buffer P"
    using measurePass_wf [OF assms, of cw ch] by blast
  have nonneg: "0 \<le> yScale P"
    using measurePass_yScale(1) [of maxCount P] one ys hgt by simp
  obtain hovered where f: "findHoverSpatialScale cfg (logScaleOrigin cfg cls) P (hoverTarget w) = Inr hovered"
    and key: "\<forall>s. hovered = Some s \<longrightarrow> s \<in> fst ` set (spatialScales P)"
    using findHoverSpatialScale_in_buffer [OF buf] by blast
  obtain present notPresent where
    c: "chunkTotals P hovered (int tp, int tnp - int (fakeChunkCount h)) = Inr (present, notPresent)"
  proof (cases hovered)
    case None
    then show ?thesis using that by (simp add: chunkTotals_none)
  next
    case (Some s)
    then have "s \<in> fst ` set (spatialScales P)" using key by simp
    then obtain row where "chunkTotals P (Some s) (int tp, int tnp - int (fakeChunkCount h))
       = Inr (rowsTotals (bins P) (histogramData P) [row])"
      using chunkTotals_hovered [OF buf] by blast
    then show ?thesis using that Some by (cases "rowsTotals (bins P) (histogramData P) [row]") simp
  qed
  have "list_all (\<lambda>i. i < bins P) [0..<bins P]" by (simp add: list_all_iff)
  then obtain rects where d: "drawBins P hovered [0..<bins P] = Inr rects"
    using drawBins_in_buffer [OF buf] by blast
  show ?thesis
    using m buf nonneg f key c d renderView_steps [OF m f c d] by blast
qed

subsection \<open>The example\<close>

lemma showNat_9: "showNat 9 = ''9''" by (simp add: showNat.simps digitChar_def)
lemma showNat_10: "showNat 10 = ''10''" by (simp add: showNat.simps digitChar_def)

lemma ln4: "ln (4::real) = 2 * ln 2"
proof -
  have "ln ((2::real) ^ 2) = 2 * ln 2" by (simp only: ln_realpow)
  then show ?thesis by simp
qed

lemma example_order: "seriesOrder (spatialScales examplePass) = [9, 10]"
  by (simp add: examplePass_def seriesOrder_def sortedSpatialScales_def defaultSort_def
      showNat_9 showNat_10)

lemma example_spec_order: "seriesOrder_spec (spatialScales examplePass) = [10, 9]"
  by (simp add: examplePass_def seriesOrder_spec_def)

lemma example_counts:
  "countTotals (numRenderScaleHistogramBins exampleConfig) (histValue exampleHistogram)
     (length (histSpatialScales exampleHistogram)) = Inr (3, 1, 2)"
proof -
  have "countTotals 1 [1, 0, 0, 2] (length [(9::nat, 0::nat), (10, 1)]) = Inr (3, 1, 2)"
    by code_simp
  then show ?thesis by (simp add: exampleConfig_def logConfig_def exampleHistogram_def)
qed

lemma example_measure:
  "measurePass exampleConfig 10 10 exampleHistogram = Inr (examplePass, 3, 1, 2)"
proof -
  have "jsDivide (real 10) (ln (1 + real 3)) = Inr (10 / ln 4)"
    by (simp add: jsDivide_def)
  moreover have "\<lparr>bins = numRenderScaleHistogramBins exampleConfig, width = 10, height = 10,
       yScale = 10 / ln 4, histogramData = histValue exampleHistogram,
       spatialScales = histSpatialScales exampleHistogram\<rparr> = examplePass"
    by (simp add: exampleConfig_def logConfig_def exampleHistogram_def examplePass_def)
  ultimately show ?thesis
    by (simp only: measurePass_def Let_def example_counts sum.case prod.case)
qed

lemmas example_defs = examplePass_def getRow_def readCounts_def fillBand_def countToCanvasY_def
  binToCanvasX_def jsDivide_def Let_def ln4

lemma example_hover: "hoverLoop examplePass 0 2 [9, 10] 0 = Inr (Some 10)"
  "hoverLoop examplePass 0 7 [9, 10] 0 = Inr (Some 9)"
  "hoverLoop examplePass 0 11 [9, 10] 0 = Inr None"
  by (simp_all add: example_defs)

lemma example_draw: "drawSeries examplePass hov 0 [9, 10] 0 =
   Inr [FillRect (NotPresentColor 9 (saturation hov 9)) 0 5 10 0,
        FillRect (PresentColor 9 (saturation hov 9)) 0 5 10 5,
        FillRect (NotPresentColor 10 (saturation hov 10)) 0 0 10 5,
        FillRect (PresentColor 10 (saturation hov 10)) 0 5 10 0]"
  by (simp add: example_defs)

lemma example_bins: "bins examplePass = 1"
  by (simp add: examplePass_def)

lemma example_drawBins: "drawBins examplePass hov [0..<bins examplePass] =
   Inr [[FillRect (NotPresentColor 9 (saturation hov 9)) 0 5 10 0,
        FillRect (PresentColor 9 (saturation hov 9)) 0 5 10 5,
        FillRect (NotPresentColor 10 (saturation hov 10)) 0 0 10 5,
        FillRect (PresentColor 10 (saturation hov 10)) 0 5 10 0]]"
  by (simp add: example_bins example_order example_draw del: drawSeries.simps)

lemma example_find:
  "findHoverSpatialScale exampleConfig (logScaleOrigin exampleConfig RenderScaleWidget)
      examplePass (Some (1, 2)) = Inr (Some 10)"
  "findHoverSpatialScale exampleConfig (logScaleOrigin exampleConfig RenderScaleWidget)
      examplePass (Some (1, 7)) = Inr (Some 9)"
  "findHoverSpatialScale exampleConfig (logScaleOrigin exampleConfig RenderScaleWidget)
      examplePass (Some (1, 11)) = Inr None"
  "findHoverSpatialScale exampleConfig (logScaleOrigin exampleConfig RenderScaleWidget)
      examplePass None = Inr None"
  by (simp_all add: findHoverSpatialScale_def exampleConfig_def logConfig_def logScaleOrigin_def example_bins
      example_order example_hover del: hoverLoop.simps)

lemma example_chunks:
  "chunkTotals examplePass (Some 10) totals = Inr (0, 2)"
  "chunkTotals examplePass (Some 9) totals = Inr (1, 0)"
  "chunkTotals examplePass None totals = Inr totals"
  by (simp_all add: chunkTotals_def example_defs)

lemma example_view:
  "renderView exampleConfig RenderScaleWidget 10 10 \<lparr>target = 1, hoverTarget = Some (1, 2)\<rparr>
       exampleHistogram =
     Inr \<lparr>legendRenderScale = ''1 px'', legendChunks = ''0/2'', hoverSpatialScale = Some 10,
          fills = [[FillRect (NotPresentColor 9 1) 0 5 10 0,
                    FillRect (PresentColor 9 1) 0 5 10 5,
                    FillRect (NotPresentColor 10 0.5) 0 0 10 5,
                    FillRect (PresentColor 10 0.5) 0 5 10 0]]\<rparr>"
proof -
  have "renderView exampleConfig RenderScaleWidget 10 10
          \<lparr>target = 1, hoverTarget = Some (1, 2)\<rparr> exampleHistogram =
     Inr \<lparr>legendRenderScale = formatPixelNumber
              (case hoverTarget \<lparr>target = 1, hoverTarget = Some (1, 2)\<rparr> of
                 None \<Rightarrow> target \<lparr>target = 1, hoverTarget = Some (1, 2)\<rparr> | Some hv \<Rightarrow> fst hv)
                @ '' '' @ unitOfTarget RenderScaleWidget,
          legendChunks = showInt 0 @ ''/'' @ showInt (0 + 2),
          hoverSpatialScale = Some 10,
          fills = [[FillRect (NotPresentColor 9 (saturation (Some 10) 9)) 0 5 10 0,
                    FillRect (PresentColor 9 (saturation (Some 10) 9)) 0 5 10 5,
                    FillRect (NotPresentColor 10 (saturation (Some 10) 10)) 0 0 10 5,
                    FillRect (PresentColor 10 (saturation (Some 10) 10)) 0 5 10 0]]\<rparr>"
    by (rule renderView_steps [OF example_measure _ example_chunks(1) example_drawBins])
      (simp add: example_find)
  then show ?thesis
    by (simp add: formatPixelNumber_def showInt_def showNat.simps digitChar_def
        unitOfTarget_def saturation_def)
qed

subsection \<open>The claims about the draw pass\<close>

lemma example_wf: "histogram_wf exampleConfig exampleHistogram"
  by (simp add: histogram_wf_def exampleConfig_def logConfig_def exampleHistogram_def)

lemma example_view_idle:
  "renderView exampleConfig RenderScaleWidget 10 10 \<lparr>target = 1, hoverTarget = None\<rparr>
       exampleHistogram =
     Inr \<lparr>legendRenderScale = ''1 px'', legendChunks = ''1/2'', hoverSpatialScale = None,
          fills = [[FillRect (NotPresentColor 9 1) 0 5 10 0,
                    FillRect (PresentColor 9 1) 0 5 10 5,
                    FillRect (NotPresentColor 10 1) 0 0 10 5,
                    FillRect (PresentColor 10 1) 0 5 10 0]]\<rparr>"
proof -
  have "renderView exampleConfig RenderScaleWidget 10 10
          \<lparr>target = 1, hoverTarget = None\<rparr> exampleHistogram =
     Inr \<lparr>legendRenderScale = formatPixelNumber
              (case hoverTarget \<lparr>target = 1, hoverTarget = None\<rparr> of
                 None \<Rightarrow> target \<lparr>target = 1, hoverTarget = None\<rparr> | Some hv \<Rightarrow> fst hv)
                @ '' '' @ unitOfTarget RenderScaleWidget,
          legendChunks = showInt (int 1) @ ''/''
                @ showInt (int 1 + (int 2 - int (fakeChunkCount exampleHistogram))),
          hoverSpatialScale = None,
          fills = [[FillRect (NotPresentColor 9 (saturation None 9)) 0 5 10 0,
                    FillRect (PresentColor 9 (saturation None 9)) 0 5 10 5,
                    FillRect (NotPresentColor 10 (saturation None 10)) 0 0 10 5,
                    FillRect (PresentColor 10 (saturation None 10)) 0 5 10 0]]\<rparr>"
    by (rule renderView_steps [OF example_measure _ example_chunks(3) example_drawBins])
      (simp add: example_find)
  then show ?thesis
    by (simp add: formatPixelNumber_def showInt_def showNat.simps digitChar_def
        unitOfTarget_def saturation_def exampleHistogram_def)
qed

text \<open>
  C1, at the keys 9 and 10: the sort of the source, which compares the keys as strings,
  puts 10 before 9, so the loops visit 9 first and 10 last, and the band of the series 10
  is drawn last, on top. The ascending numeric order of the claim has 9 before 10, visits
  10 first and draws the series 9 last.
\<close>

theorem seriesOrder_sorts_by_string:
  "sortedSpatialScales (histSpatialScales exampleHistogram) = [10, 9]
   \<and> seriesOrder (histSpatialScales exampleHistogram) = [9, 10]
   \<and> seriesOrder_spec (histSpatialScales exampleHistogram) = [10, 9]
   \<and> map_sum id (map drawnBands \<circ> fills)
        (renderView exampleConfig RenderScaleWidget 10 10
           \<lparr>target = 1, hoverTarget = None\<rparr> exampleHistogram)
       = Inr [[(9, 10, 5), (10, 5, 0)]]"
proof -
  have "seriesOrder (histSpatialScales exampleHistogram) = [9, 10]"
    using example_order by (simp add: examplePass_def exampleHistogram_def)
  moreover from this have "sortedSpatialScales (histSpatialScales exampleHistogram) = [10, 9]"
    by (simp add: seriesOrder_def rev_swap)
  moreover have "seriesOrder_spec (histSpatialScales exampleHistogram) = [10, 9]"
    using example_spec_order by (simp add: examplePass_def exampleHistogram_def)
  ultimately show ?thesis
    by (simp add: example_view_idle)
qed

lemma example_spec_legend: "legendChunks_spec exampleConfig exampleHistogram (Some 10) = ''0/1''"
proof -
  have "rowsTotals 1 [1, 0, 0, 2] [1] = (0, 2)"
    by (simp add: rowsTotals_def presentAt_def notPresentAt_def)
  then show ?thesis
    by (simp add: legendChunks_spec_def exampleConfig_def logConfig_def exampleHistogram_def showInt_def
        showNat.simps digitChar_def)
qed

text \<open>
  Counterexample to C3 as stated: with the pointer on the band of the series 10, whose row
  holds two chunks that are not present, and a fake chunk count of 1, the legend shows
  \<^verbatim>\<open>0/2\<close>; with the fake chunk taken out it would show \<^verbatim>\<open>0/1\<close>.
\<close>

theorem legendChunks_hovered_counterexample:
  "map_sum id hoverSpatialScale
       (renderView exampleConfig RenderScaleWidget 10 10
          \<lparr>target = 1, hoverTarget = Some (1, 2)\<rparr> exampleHistogram) = Inr (Some 10)
   \<and> map_sum id legendChunks
       (renderView exampleConfig RenderScaleWidget 10 10
          \<lparr>target = 1, hoverTarget = Some (1, 2)\<rparr> exampleHistogram) = Inr ''0/2''
   \<and> fakeChunkCount exampleHistogram = 1
   \<and> legendChunks_spec exampleConfig exampleHistogram (Some 10) = ''0/1''"
proof -
  have "fakeChunkCount exampleHistogram = 1" by (simp add: exampleHistogram_def)
  then show ?thesis by (simp add: example_view example_spec_legend)
qed

text \<open>
  C3, amended: a pass over a well-formed histogram returns a view. When no series is
  hovered (as when there is no hover probe) the fraction of the legend is taken over all
  rows, and the fake chunk count is subtracted from the chunks that are not present. When
  a series is hovered, the fraction is taken over the row of that series alone, and the
  fake chunk count is not subtracted from it.
\<close>

theorem legendChunks_excludes_fake_when_idle:
  "histogram_wf cfg h \<longrightarrow>
     (\<exists>v. renderView cfg cls cw ch w h = Inr v
        \<and> (hoverTarget w = None \<longrightarrow> hoverSpatialScale v = None)
        \<and> (hoverSpatialScale v = None \<longrightarrow>
             legendChunks v =
               showInt (fst (rowsTotals (numRenderScaleHistogramBins cfg) (histValue h)
                               [0..<length (histSpatialScales h)]))
               @ ''/''
               @ showInt (fst (rowsTotals (numRenderScaleHistogramBins cfg) (histValue h)
                                 [0..<length (histSpatialScales h)])
                          + (snd (rowsTotals (numRenderScaleHistogramBins cfg) (histValue h)
                                    [0..<length (histSpatialScales h)])
                             - int (fakeChunkCount h))))
        \<and> (\<forall>s. hoverSpatialScale v = Some s \<longrightarrow>
             (\<exists>row. map_of (histSpatialScales h) s = Some row
                \<and> legendChunks v =
                    showInt (fst (rowsTotals (numRenderScaleHistogramBins cfg) (histValue h) [row]))
                    @ ''/''
                    @ showInt (fst (rowsTotals (numRenderScaleHistogramBins cfg) (histValue h) [row])
                               + snd (rowsTotals (numRenderScaleHistogramBins cfg) (histValue h) [row])))))"
proof
  assume wf: "histogram_wf cfg h"
  let ?nb = "numRenderScaleHistogramBins cfg"
  obtain P maxCount tp tnp where m: "measurePass cfg cw ch h = Inr (P, maxCount, tp, tnp)"
    and fields: "bins P = ?nb" "histogramData P = histValue h" "spatialScales P = histSpatialScales h"
    and totals: "(int tp, int tnp) = rowsTotals ?nb (histValue h) [0..<length (histSpatialScales h)]"
    and buf: "rows_in_buffer P"
    using measurePass_wf [OF wf, of cw ch] by blast
  obtain hovered where f: "findHoverSpatialScale cfg (logScaleOrigin cfg cls) P (hoverTarget w) = Inr hovered"
    and key: "\<forall>s. hovered = Some s \<longrightarrow> s \<in> fst ` set (spatialScales P)"
    using findHoverSpatialScale_in_buffer [OF buf] by blast
  have idle: "hoverTarget w = None \<longrightarrow> hovered = None"
    using f by (auto simp: findHoverSpatialScale_def)
  have "list_all (\<lambda>i. i < bins P) [0..<bins P]" by (simp add: list_all_iff)
  then obtain rects where d: "drawBins P hovered [0..<bins P] = Inr rects"
    using drawBins_in_buffer [OF buf] by blast
  show "\<exists>v. renderView cfg cls cw ch w h = Inr v
        \<and> (hoverTarget w = None \<longrightarrow> hoverSpatialScale v = None)
        \<and> (hoverSpatialScale v = None \<longrightarrow>
             legendChunks v =
               showInt (fst (rowsTotals ?nb (histValue h) [0..<length (histSpatialScales h)]))
               @ ''/''
               @ showInt (fst (rowsTotals ?nb (histValue h) [0..<length (histSpatialScales h)])
                          + (snd (rowsTotals ?nb (histValue h) [0..<length (histSpatialScales h)])
                             - int (fakeChunkCount h))))
        \<and> (\<forall>s. hoverSpatialScale v = Some s \<longrightarrow>
             (\<exists>row. map_of (histSpatialScales h) s = Some row
                \<and> legendChunks v =
                    showInt (fst (rowsTotals ?nb (histValue h) [row]))
                    @ ''/''
                    @ showInt (fst (rowsTotals ?nb (histValue h) [row])
                               + snd (rowsTotals ?nb (histValue h) [row]))))"
  proof (cases hovered)
    case None
    have c: "chunkTotals P hovered (int tp, int tnp - int (fakeChunkCount h))
       = Inr (int tp, int tnp - int (fakeChunkCount h))"
      using None by (simp add: chunkTotals_none)
    have tp: "int tp = fst (rowsTotals ?nb (histValue h) [0..<length (histSpatialScales h)])"
      and tnp: "int tnp = snd (rowsTotals ?nb (histValue h) [0..<length (histSpatialScales h)])"
      using totals [symmetric] by simp_all
    show ?thesis
      using None idle by (simp add: renderView_steps [OF m f c d] tp tnp)
  next
    case (Some s)
    then have "s \<in> fst ` set (spatialScales P)" using key by simp
    then obtain row where row: "map_of (spatialScales P) s = Some row"
      and c0: "chunkTotals P (Some s) (int tp, int tnp - int (fakeChunkCount h))
       = Inr (rowsTotals (bins P) (histogramData P) [row])"
      using chunkTotals_hovered [OF buf] by blast
    have c: "chunkTotals P hovered (int tp, int tnp - int (fakeChunkCount h))
       = Inr (fst (rowsTotals ?nb (histValue h) [row]), snd (rowsTotals ?nb (histValue h) [row]))"
      using c0 Some fields by simp
    show ?thesis
      using Some idle row fields by (simp add: renderView_steps [OF m f c d])
  qed
qed

text \<open>Witness for C3: the example, once without a hover probe and once on the series 10.\<close>

theorem legendChunks_excludes_fake_when_idle_witness:
  "histogram_wf exampleConfig exampleHistogram
   \<and> (\<exists>v. renderView exampleConfig RenderScaleWidget 10 10
             \<lparr>target = 1, hoverTarget = None\<rparr> exampleHistogram = Inr v
          \<and> hoverSpatialScale v = None \<and> legendChunks v = ''1/2'')
   \<and> (\<exists>v. renderView exampleConfig RenderScaleWidget 10 10
             \<lparr>target = 1, hoverTarget = Some (1, 2)\<rparr> exampleHistogram = Inr v
          \<and> hoverSpatialScale v = Some 10 \<and> legendChunks v = ''0/2'')"
  using legendChunks_excludes_fake_when_idle [of exampleConfig exampleHistogram
      RenderScaleWidget 10 10 "\<lparr>target = 1, hoverTarget = None\<rparr>"]
    legendChunks_excludes_fake_when_idle [of exampleConfig exampleHistogram
      RenderScaleWidget 10 10 "\<lparr>target = 1, hoverTarget = Some (1, 2)\<rparr>"]
    example_wf
  by (simp add: example_view example_view_idle)

text \<open>
  C5: the division that gives \<open>yScale\<close> never divides by zero, whatever the buffer holds.
  Over a well-formed histogram the pass gets \<open>maxCount\<close>, the largest of 1 and the counts
  of the bins summed over all rows, and \<open>yScale = canvasHeight / ln (1 + maxCount)\<close>, so
  that the count 0 is drawn at \<open>canvasHeight\<close> and the count \<open>maxCount\<close> at 0.
\<close>

theorem measurePass_height_model:
  "measurePass cfg cw ch h \<noteq> Inl DivisionByZero
   \<and> (histogram_wf cfg h \<longrightarrow>
        (\<exists>P maxCount tp tnp.
           measurePass cfg cw ch h = Inr (P, maxCount, tp, tnp)
           \<and> maxCount = Max (insert 1 (binTotal (numRenderScaleHistogramBins cfg) (histValue h)
                 (length (histSpatialScales h)) ` {..<numRenderScaleHistogramBins cfg}))
           \<and> 1 \<le> maxCount \<and> ln (1 + real maxCount) \<noteq> 0
           \<and> height P = ch \<and> yScale P = real ch / ln (1 + real maxCount)
           \<and> countToCanvasY P 0 = real ch \<and> countToCanvasY P maxCount = 0))"
proof (intro conjI impI)
  show "measurePass cfg cw ch h \<noteq> Inl DivisionByZero" by (rule measurePass_fault)
next
  assume wf: "histogram_wf cfg h"
  obtain P maxCount tp tnp where m: "measurePass cfg cw ch h = Inr (P, maxCount, tp, tnp)"
    and hgt: "height P = ch"
    and mx: "maxCount = Max (insert 1 (binTotal (numRenderScaleHistogramBins cfg) (histValue h)
          (length (histSpatialScales h)) ` {..<numRenderScaleHistogramBins cfg}))"
    and one: "1 \<le> maxCount"
    and ys: "yScale P = real ch / ln (1 + real maxCount)"
    using measurePass_wf [OF wf, of cw ch] by blast
  have ys': "yScale P = real (height P) / ln (1 + real maxCount)" using ys hgt by simp
  have "ln (1 + real maxCount) \<noteq> 0" using ln_count_pos [OF one] by simp
  moreover have "countToCanvasY P 0 = real ch" "countToCanvasY P maxCount = 0"
    using measurePass_yScale(2,3) [OF one ys'] hgt by simp_all
  ultimately show "\<exists>P maxCount tp tnp.
           measurePass cfg cw ch h = Inr (P, maxCount, tp, tnp)
           \<and> maxCount = Max (insert 1 (binTotal (numRenderScaleHistogramBins cfg) (histValue h)
                 (length (histSpatialScales h)) ` {..<numRenderScaleHistogramBins cfg}))
           \<and> 1 \<le> maxCount \<and> ln (1 + real maxCount) \<noteq> 0
           \<and> height P = ch \<and> yScale P = real ch / ln (1 + real maxCount)
           \<and> countToCanvasY P 0 = real ch \<and> countToCanvasY P maxCount = 0"
    using m mx one hgt ys by blast
qed

text \<open>Witness for C5: the example, where the largest count of a bin is 3.\<close>

theorem measurePass_height_model_witness:
  "histogram_wf exampleConfig exampleHistogram
   \<and> measurePass exampleConfig 10 10 exampleHistogram = Inr (examplePass, 3, 1, 2)
   \<and> countToCanvasY examplePass 0 = 10 \<and> countToCanvasY examplePass 3 = 0"
  using measurePass_height_model [of exampleConfig 10 10 exampleHistogram] example_wf
  by (auto simp: example_measure)

lemma two_bands:
  assumes st: "stackedFrom b [(s1, ys1, ye1), (s2, ys2, ye2)]"
  shows "ys1 = b \<and> ys2 = ye1 \<and> ye2 \<le> ye1 \<and> ye1 \<le> ys1
    \<and> (ye1 < y \<and> y < ys1 \<longrightarrow> firstBandAt y [(s1, ys1, ye1), (s2, ys2, ye2)] = Some s1)
    \<and> (ye2 < y \<and> y < ys2 \<longrightarrow> firstBandAt y [(s1, ys1, ye1), (s2, ys2, ye2)] = Some s2)
    \<and> (y < ye2 \<longrightarrow> firstBandAt y [(s1, ys1, ye1), (s2, ys2, ye2)] = None)
    \<and> (ys1 < y \<longrightarrow> firstBandAt y [(s1, ys1, ye1), (s2, ys2, ye2)] = None)"
  using st by auto

text \<open>
  C6: over a well-formed histogram and with a hover probe, the pass returns a view. If the
  bin of the probed value lies outside \<open>[0, bins)\<close> no series is hovered; otherwise the
  hovered series is the first band, among those the pass draws for that bin and in the
  order it draws them, that holds the pointer's y pixel between its two rounded edges.
  When the bin shows two bands, the first starts at the canvas height, the second starts
  where the first ends, a pointer strictly inside a band picks its series, and a pointer
  above the second band or below the baseline picks none.
\<close>

theorem hover_picks_first_drawn_band:
  "histogram_wf cfg h \<and> hoverTarget w = Some (probed, py) \<longrightarrow>
    (\<exists>v. renderView cfg cls cw ch w h = Inr v \<and>
      (\<lfloor>getRenderScaleHistogramOffset cfg probed (logScaleOrigin cfg cls)\<rfloor> < 0
         \<or> int (numRenderScaleHistogramBins cfg)
              \<le> \<lfloor>getRenderScaleHistogramOffset cfg probed (logScaleOrigin cfg cls)\<rfloor>
        \<longrightarrow> hoverSpatialScale v = None)
      \<and> (0 \<le> \<lfloor>getRenderScaleHistogramOffset cfg probed (logScaleOrigin cfg cls)\<rfloor>
         \<and> \<lfloor>getRenderScaleHistogramOffset cfg probed (logScaleOrigin cfg cls)\<rfloor>
              < int (numRenderScaleHistogramBins cfg)
        \<longrightarrow> hoverSpatialScale v
              = firstBandAt py (drawnBands (fills v
                  ! nat \<lfloor>getRenderScaleHistogramOffset cfg probed (logScaleOrigin cfg cls)\<rfloor>))
            \<and> (\<forall>s1 ys1 ye1 s2 ys2 ye2.
                 drawnBands (fills v
                   ! nat \<lfloor>getRenderScaleHistogramOffset cfg probed (logScaleOrigin cfg cls)\<rfloor>)
                   = [(s1, ys1, ye1), (s2, ys2, ye2)]
                 \<longrightarrow> ys1 = real ch \<and> ys2 = ye1 \<and> ye2 \<le> ye1 \<and> ye1 \<le> ys1
                     \<and> (ye1 < py \<and> py < ys1 \<longrightarrow> hoverSpatialScale v = Some s1)
                     \<and> (ye2 < py \<and> py < ys2 \<longrightarrow> hoverSpatialScale v = Some s2)
                     \<and> (py < ye2 \<longrightarrow> hoverSpatialScale v = None)
                     \<and> (ys1 < py \<longrightarrow> hoverSpatialScale v = None))))"
proof
  let ?i = "\<lfloor>getRenderScaleHistogramOffset cfg probed (logScaleOrigin cfg cls)\<rfloor>"
  let ?nb = "numRenderScaleHistogramBins cfg"
  assume a: "histogram_wf cfg h \<and> hoverTarget w = Some (probed, py)"
  then have wf: "histogram_wf cfg h" and hov: "hoverTarget w = Some (probed, py)" by simp_all
  obtain P maxCount tp tnp where m: "measurePass cfg cw ch h = Inr (P, maxCount, tp, tnp)"
    and nb: "bins P = ?nb" and hgt: "height P = ch" and one: "1 \<le> maxCount"
    and ys: "yScale P = real ch / ln (1 + real maxCount)" and buf: "rows_in_buffer P"
    using measurePass_wf [OF wf, of cw ch] by blast
  have ys': "yScale P = real (height P) / ln (1 + real maxCount)" using ys hgt by simp
  have nonneg: "0 \<le> yScale P" and base: "countToCanvasY P 0 = real ch"
    using measurePass_yScale(1,2) [OF one ys'] hgt by simp_all
  obtain hovered where f: "findHoverSpatialScale cfg (logScaleOrigin cfg cls) P (hoverTarget w) = Inr hovered"
    and key: "\<forall>s. hovered = Some s \<longrightarrow> s \<in> fst ` set (spatialScales P)"
    using findHoverSpatialScale_in_buffer [OF buf] by blast
  obtain present notPresent where
    c: "chunkTotals P hovered (int tp, int tnp - int (fakeChunkCount h)) = Inr (present, notPresent)"
  proof (cases hovered)
    case None
    then show ?thesis using that by (simp add: chunkTotals_none)
  next
    case (Some s)
    then have "s \<in> fst ` set (spatialScales P)" using key by simp
    then obtain row where "chunkTotals P (Some s) (int tp, int tnp - int (fakeChunkCount h))
       = Inr (rowsTotals (bins P) (histogramData P) [row])"
      using chunkTotals_hovered [OF buf] by blast
    then show ?thesis using that Some by (cases "rowsTotals (bins P) (histogramData P) [row]") simp
  qed
  have "list_all (\<lambda>i. i < bins P) [0..<bins P]" by (simp add: list_all_iff)
  then obtain rects where d: "drawBins P hovered [0..<bins P] = Inr rects"
    using drawBins_in_buffer [OF buf] by blast
  let ?v = "\<lparr>legendRenderScale = formatPixelNumber
              (case hoverTarget w of None \<Rightarrow> target w | Some hv \<Rightarrow> fst hv) @ '' '' @ unitOfTarget cls,
          legendChunks = showInt present @ ''/'' @ showInt (present + notPresent),
          hoverSpatialScale = hovered, fills = rects\<rparr>"
  have v: "renderView cfg cls cw ch w h = Inr ?v"
    by (rule renderView_steps [OF m f c d])
  have outside: "hovered = None" if "?i < 0 \<or> int ?nb \<le> ?i"
    using that f hov nb by (auto simp: findHoverSpatialScale_def Let_def)
  have inside: "hovered = firstBandAt py (drawnBands (rects ! nat ?i))
      \<and> stackedFrom (real ch) (drawnBands (rects ! nat ?i))" if r: "0 \<le> ?i \<and> ?i < int ?nb"
  proof -
    have "nat ?i < bins P" using r nb by linarith
    then have lt: "nat ?i < length [0..<bins P]" by simp
    then have "drawSeries P hovered ([0..<bins P] ! nat ?i) (seriesOrder (spatialScales P)) 0
       = Inr (rects ! nat ?i)"
      using d by (intro drawBins_nth)
    moreover have "[0..<bins P] ! nat ?i = nat ?i" using lt by simp
    ultimately have ds: "drawSeries P hovered (nat ?i) (seriesOrder (spatialScales P)) 0
       = Inr (rects ! nat ?i)" by simp
    have "hoverLoop P (nat ?i) py (seriesOrder (spatialScales P)) 0 = Inr hovered"
      using f hov r nb by (simp add: findHoverSpatialScale_def Let_def)
    then have "hovered = firstBandAt py (drawnBands (rects ! nat ?i))"
      using ds by (rule hoverLoop_drawn)
    moreover have "stackedFrom (real_of_int (round (countToCanvasY P 0))) (drawnBands (rects ! nat ?i))"
      using nonneg ds by (rule drawSeries_stacked)
    ultimately show ?thesis by (simp add: base)
  qed
  have two: "ys1 = real ch \<and> ys2 = ye1 \<and> ye2 \<le> ye1 \<and> ye1 \<le> ys1
       \<and> (ye1 < py \<and> py < ys1 \<longrightarrow> hovered = Some s1)
       \<and> (ye2 < py \<and> py < ys2 \<longrightarrow> hovered = Some s2)
       \<and> (py < ye2 \<longrightarrow> hovered = None)
       \<and> (ys1 < py \<longrightarrow> hovered = None)"
    if r: "0 \<le> ?i \<and> ?i < int ?nb"
      and b: "drawnBands (rects ! nat ?i) = [(s1, ys1, ye1), (s2, ys2, ye2)]"
    for s1 ys1 ye1 s2 ys2 ye2
  proof -
    have h: "hovered = firstBandAt py [(s1, ys1, ye1), (s2, ys2, ye2)]"
      and st: "stackedFrom (real ch) [(s1, ys1, ye1), (s2, ys2, ye2)]"
      using inside [OF r] b by simp_all
    show ?thesis
      unfolding h by (rule two_bands [OF st])
  qed
  show "\<exists>v. renderView cfg cls cw ch w h = Inr v \<and>
      (?i < 0 \<or> int ?nb \<le> ?i \<longrightarrow> hoverSpatialScale v = None)
      \<and> (0 \<le> ?i \<and> ?i < int ?nb
        \<longrightarrow> hoverSpatialScale v = firstBandAt py (drawnBands (fills v ! nat ?i))
            \<and> (\<forall>s1 ys1 ye1 s2 ys2 ye2.
                 drawnBands (fills v ! nat ?i) = [(s1, ys1, ye1), (s2, ys2, ye2)]
                 \<longrightarrow> ys1 = real ch \<and> ys2 = ye1 \<and> ye2 \<le> ye1 \<and> ye1 \<le> ys1
                     \<and> (ye1 < py \<and> py < ys1 \<longrightarrow> hoverSpatialScale v = Some s1)
                     \<and> (ye2 < py \<and> py < ys2 \<longrightarrow> hoverSpatialScale v = Some s2)
                     \<and> (py < ye2 \<longrightarrow> hoverSpatialScale v = None)
                     \<and> (ys1 < py \<longrightarrow> hoverSpatialScale v = None)))"
  proof (intro exI [of _ ?v] conjI impI allI)
    show "renderView cfg cls cw ch w h = Inr ?v" by (rule v)
  next
    assume "?i < 0 \<or> int ?nb \<le> ?i"
    then show "hoverSpatialScale ?v = None" using outside by simp
  next
    assume "0 \<le> ?i \<and> ?i < int ?nb"
    then show "hoverSpatialScale ?v = firstBandAt py (drawnBands (fills ?v ! nat ?i))"
      using inside by simp
  next
    fix s1 ys1 ye1 s2 ys2 ye2
    assume r: "0 \<le> ?i \<and> ?i < int ?nb"
      and b: "drawnBands (fills ?v ! nat ?i) = [(s1, ys1, ye1), (s2, ys2, ye2)]"
    then have t: "ys1 = real ch \<and> ys2 = ye1 \<and> ye2 \<le> ye1 \<and> ye1 \<le> ys1
       \<and> (ye1 < py \<and> py < ys1 \<longrightarrow> hovered = Some s1)
       \<and> (ye2 < py \<and> py < ys2 \<longrightarrow> hovered = Some s2)
       \<and> (py < ye2 \<longrightarrow> hovered = None)
       \<and> (ys1 < py \<longrightarrow> hovered = None)"
      using two [of s1 ys1 ye1 s2 ys2 ye2] by simp
    show "ys1 = real ch" "ys2 = ye1" "ye2 \<le> ye1" "ye1 \<le> ys1" using t by simp_all
    { assume "ye1 < py \<and> py < ys1" then show "hoverSpatialScale ?v = Some s1" using t by simp }
    { assume "ye2 < py \<and> py < ys2" then show "hoverSpatialScale ?v = Some s2" using t by simp }
    { assume "py < ye2" then show "hoverSpatialScale ?v = None" using t by simp }
    { assume "ys1 < py" then show "hoverSpatialScale ?v = None" using t by simp }
  qed
qed

text \<open>Witness for C6: the example with the pointer at y = 2, inside the band of the series 10.\<close>

theorem hover_picks_first_drawn_band_witness:
  "histogram_wf exampleConfig exampleHistogram
   \<and> \<lfloor>getRenderScaleHistogramOffset exampleConfig 1 (logScaleOrigin exampleConfig RenderScaleWidget)\<rfloor> = 0
   \<and> (\<exists>v. renderView exampleConfig RenderScaleWidget 10 10
             \<lparr>target = 1, hoverTarget = Some (1, 2)\<rparr> exampleHistogram = Inr v
          \<and> drawnBands (fills v ! 0) = [(9, 10, 5), (10, 5, 0)]
          \<and> hoverSpatialScale v = Some 10
          \<and> hoverSpatialScale v = firstBandAt 2 (drawnBands (fills v ! 0)))"
proof -
  have i: "\<lfloor>getRenderScaleHistogramOffset exampleConfig 1
      (logScaleOrigin exampleConfig RenderScaleWidget)\<rfloor> = 0"
    by (simp add: exampleConfig_def logConfig_def logScaleOrigin_def)
  have nb: "numRenderScaleHistogramBins exampleConfig = 1"
    by (simp add: exampleConfig_def logConfig_def)
  show ?thesis
    using hover_picks_first_drawn_band [of exampleConfig exampleHistogram
        "\<lparr>target = 1, hoverTarget = Some (1, 2)\<rparr>" 1 2 RenderScaleWidget 10 10]
      example_wf i nb
    by (simp add: example_view)
qed

text \<open>
  C7: the stack of a bin, and so the stacks of all bins, never divide by zero. The
  division of \<^const>\<open>fillBand\<close> would do so exactly when the count of the series is 0,
  and a series whose count is 0 is passed over before it: it adds no rectangle and leaves
  the cumulative count as it is. The split is computed for the other series only.
\<close>

theorem drawSeries_skips_empty_series:
  "drawSeries P hov i keys c \<noteq> Inl DivisionByZero
   \<and> drawBins P hov bs \<noteq> Inl DivisionByZero
   \<and> (fillBand P hov s i p a c = Inl DivisionByZero \<longleftrightarrow> p + a = 0)
   \<and> (getRow (spatialScales P) s = Inr row
        \<and> readCounts (histogramData P) (row * bins P * 2 + i) (bins P) = Inr (p, a) \<longrightarrow>
          (p + a = 0 \<longrightarrow> drawSeries P hov i (s # keys) c = drawSeries P hov i keys c)
          \<and> (p + a \<noteq> 0 \<longrightarrow>
               drawSeries P hov i (s # keys) c =
                 (case fillBand P hov s i p a c of
                    Inl e \<Rightarrow> Inl e
                  | Inr band \<Rightarrow>
                     (case drawSeries P hov i keys (c + (p + a)) of
                        Inl e \<Rightarrow> Inl e
                      | Inr ops \<Rightarrow> Inr (band @ ops)))))"
proof (intro conjI impI)
  show "drawSeries P hov i keys c \<noteq> Inl DivisionByZero" by (rule drawSeries_fault)
  show "drawBins P hov bs \<noteq> Inl DivisionByZero" by (rule drawBins_fault)
  show "fillBand P hov s i p a c = Inl DivisionByZero \<longleftrightarrow> p + a = 0"
    by (simp add: fillBand_fault_iff)
next
  assume r: "getRow (spatialScales P) s = Inr row
        \<and> readCounts (histogramData P) (row * bins P * 2 + i) (bins P) = Inr (p, a)"
  then have row: "getRow (spatialScales P) s = Inr row"
    and counts: "readCounts (histogramData P) (row * bins P * 2 + i) (bins P) = Inr (p, a)"
    by simp_all
  {
    assume "p + a = 0"
    then show "drawSeries P hov i (s # keys) c = drawSeries P hov i keys c"
      by (rule drawSeries_skip [OF row counts])
  }
  {
    assume "p + a \<noteq> 0"
    then show "drawSeries P hov i (s # keys) c =
                 (case fillBand P hov s i p a c of
                    Inl e \<Rightarrow> Inl e
                  | Inr band \<Rightarrow>
                     (case drawSeries P hov i keys (c + (p + a)) of
                        Inl e \<Rightarrow> Inl e
                      | Inr ops \<Rightarrow> Inr (band @ ops)))"
      by (rule drawSeries_band [OF row counts])
  }
qed

text \<open>Witness for C7: the series 9 has no chunk in the bin, the series 10 has one.\<close>

theorem drawSeries_skips_empty_series_witness:
  "getRow (spatialScales sparsePass) 9 = Inr 0
   \<and> readCounts (histogramData sparsePass) (0 * bins sparsePass * 2 + 0) (bins sparsePass) = Inr (0, 0)
   \<and> drawSeries sparsePass None 0 [9, 10] 0 = drawSeries sparsePass None 0 [10] 0
   \<and> drawSeries sparsePass None 0 [10] 0
       = Inr [FillRect (NotPresentColor 10 1) 0 0 10 0, FillRect (PresentColor 10 1) 0 0 10 10]"
proof -
  have row: "getRow (spatialScales sparsePass) 9 = Inr 0"
    by (simp add: sparsePass_def getRow_def)
  have counts: "readCounts (histogramData sparsePass) (0 * bins sparsePass * 2 + 0) (bins sparsePass)
      = Inr (0, 0)"
    by (simp add: sparsePass_def readCounts_def)
  have skip: "drawSeries sparsePass None 0 [9, 10] 0 = drawSeries sparsePass None 0 [10] 0"
    using drawSeries_skips_empty_series [of sparsePass None 0 "[10]" 0 "[]" 9 0 0 0] row counts
    by simp
  have "drawSeries sparsePass None 0 [10] 0
       = Inr [FillRect (NotPresentColor 10 1) 0 0 10 0, FillRect (PresentColor 10 1) 0 0 10 10]"
    by (simp add: sparsePass_def getRow_def readCounts_def fillBand_def countToCanvasY_def
        binToCanvasX_def jsDivide_def Let_def saturation_def)
  with row counts skip show ?thesis by simp
qed

text \<open>
  C8: \<^const>\<open>updateView\<close> returns a visible histogram as it came. It returns a hidden one
  with every counter set to zero, the registry and the other fields unchanged, and draws
  from the zeroed buffer. So the buffer changes only when the histogram is hidden.
\<close>

theorem updateView_zeroes_hidden_buffer:
  "(histVisible histogram \<longrightarrow>
      fst (updateView cfg cls cw ch w histogram) = histogram)
   \<and> (\<not> histVisible histogram \<longrightarrow>
      fst (updateView cfg cls cw ch w histogram)
        = histogram\<lparr>histValue := replicate (length (histValue histogram)) 0\<rparr>
      \<and> snd (updateView cfg cls cw ch w histogram)
        = renderView cfg cls cw ch w
            (histogram\<lparr>histValue := replicate (length (histValue histogram)) 0\<rparr>))
   \<and> (histValue (fst (updateView cfg cls cw ch w histogram)) \<noteq> histValue histogram
        \<longrightarrow> \<not> histVisible histogram)"
  by (simp add: updateView_def Let_def map_replicate_const)

text \<open>Witness for C8: the same buffer, once visible and once hidden.\<close>

theorem updateView_zeroes_hidden_buffer_witness:
  "fst (updateView (logConfig 1 1 0) RenderScaleWidget 10 10 \<lparr>target = 1, hoverTarget = None\<rparr>
      \<lparr>histValue = [3, 4], histSpatialScales = [(1, 0)], histVisible = True, fakeChunkCount = 0\<rparr>)
    = \<lparr>histValue = [3, 4], histSpatialScales = [(1, 0)], histVisible = True, fakeChunkCount = 0\<rparr>
   \<and> fst (updateView (logConfig 1 1 0) RenderScaleWidget 10 10 \<lparr>target = 1, hoverTarget = None\<rparr>
      \<lparr>histValue = [3, 4], histSpatialScales = [(1, 0)], histVisible = False, fakeChunkCount = 0\<rparr>)
    = \<lparr>histValue = [0, 0], histSpatialScales = [(1, 0)], histVisible = False, fakeChunkCount = 0\<rparr>"
  using updateView_zeroes_hidden_buffer [of
      "\<lparr>histValue = [3, 4], histSpatialScales = [(1, 0)], histVisible = True, fakeChunkCount = 0\<rparr>"
      "logConfig 1 1 0" RenderScaleWidget 10 10 "\<lparr>target = 1, hoverTarget = None\<rparr>"]
    updateView_zeroes_hidden_buffer [of
      "\<lparr>histValue = [3, 4], histSpatialScales = [(1, 0)], histVisible = False, fakeChunkCount = 0\<rparr>"
      "logConfig 1 1 0" RenderScaleWidget 10 10 "\<lparr>target = 1, hoverTarget = None\<rparr>"]
  by (simp add: numeral_2_eq_2)


lemma split_between:
  fixes yStart yEnd :: real
  assumes "0 < p + a" and "yEnd \<le> yStart"
  shows "yEnd \<le> (real p * yEnd + real a * yStart) / real (p + a)"
    and "(real p * yEnd + real a * yStart) / real (p + a) \<le> yStart"
proof -
  have pos: "0 < real (p + a)" using assms(1) by (simp only: of_nat_0_less_iff)
  have up: "real a * yEnd \<le> real a * yStart"
    using assms(2) by (intro mult_left_mono) simp_all
  have down: "real p * yEnd \<le> real p * yStart"
    using assms(2) by (intro mult_left_mono) simp_all
  have "yEnd * real (p + a) = real p * yEnd + real a * yEnd"
    by (simp add: algebra_simps)
  also have "\<dots> \<le> real p * yEnd + real a * yStart"
    using up by simp
  finally show "yEnd \<le> (real p * yEnd + real a * yStart) / real (p + a)"
    using pos by (simp only: pos_le_divide_eq)
  have "real p * yEnd + real a * yStart \<le> real p * yStart + real a * yStart"
    using down by simp
  also have "\<dots> = yStart * real (p + a)"
    by (simp add: algebra_simps)
  finally show "(real p * yEnd + real a * yStart) / real (p + a) \<le> yStart"
    using pos by (simp only: pos_divide_le_eq)
qed


text \<open>
  C10: with a scale that is not negative, the upper edge \<open>yEnd\<close> of a band is no lower
  than its lower edge \<open>yStart\<close>. For a series with chunks and \<open>yEnd \<le> yStart\<close>,
  \<^const>\<open>fillBand\<close> fills two rectangles of the same column, the first from \<open>yEnd\<close> to
  \<open>ySplit\<close> and the second from \<open>ySplit\<close> to \<open>yStart\<close>, where
  \<open>ySplit = (presentCount \<times> yEnd + notPresentCount \<times> yStart) / count\<close> lies between the
  two edges: both heights are at least 0 and they add up to \<open>yStart - yEnd\<close>.
\<close>

theorem fillBand_tiles_band:
  "(0 \<le> yScale P \<longrightarrow>
      round (countToCanvasY P (cumulative + (presentCount + notPresentCount)))
        \<le> round (countToCanvasY P cumulative))
   \<and> (0 < presentCount + notPresentCount \<and>
   round (countToCanvasY P (cumulative + (presentCount + notPresentCount)))
     \<le> round (countToCanvasY P cumulative) \<longrightarrow>
   (\<exists>style style' x w ySplit.
      fillBand P hov spatialScale i presentCount notPresentCount cumulative
        = Inr [FillRect style x
                 (real_of_int (round (countToCanvasY P (cumulative + (presentCount + notPresentCount)))))
                 w
                 (ySplit - real_of_int (round (countToCanvasY P (cumulative + (presentCount + notPresentCount))))),
               FillRect style' x ySplit w
                 (real_of_int (round (countToCanvasY P cumulative)) - ySplit)]
      \<and> ySplit = (real presentCount
                     * real_of_int (round (countToCanvasY P (cumulative + (presentCount + notPresentCount))))
                   + real notPresentCount * real_of_int (round (countToCanvasY P cumulative)))
                  / real (presentCount + notPresentCount)
      \<and> real_of_int (round (countToCanvasY P (cumulative + (presentCount + notPresentCount)))) \<le> ySplit
      \<and> ySplit \<le> real_of_int (round (countToCanvasY P cumulative))
      \<and> 0 \<le> ySplit - real_of_int (round (countToCanvasY P (cumulative + (presentCount + notPresentCount))))
      \<and> 0 \<le> real_of_int (round (countToCanvasY P cumulative)) - ySplit
      \<and> (ySplit - real_of_int (round (countToCanvasY P (cumulative + (presentCount + notPresentCount)))))
          + (real_of_int (round (countToCanvasY P cumulative)) - ySplit)
        = real_of_int (round (countToCanvasY P cumulative))
          - real_of_int (round (countToCanvasY P (cumulative + (presentCount + notPresentCount))))))"
proof (intro conjI impI)
  assume "0 \<le> yScale P"
  then have "countToCanvasY P (cumulative + (presentCount + notPresentCount))
     \<le> countToCanvasY P cumulative"
    by (intro countToCanvasY_antimono) simp_all
  then show "round (countToCanvasY P (cumulative + (presentCount + notPresentCount)))
        \<le> round (countToCanvasY P cumulative)"
    by (rule round_mono)
next
  let ?yStart = "real_of_int (round (countToCanvasY P cumulative))"
  let ?yEnd = "real_of_int (round (countToCanvasY P (cumulative + (presentCount + notPresentCount))))"
  let ?ySplit = "(real presentCount * ?yEnd + real notPresentCount * ?yStart)
                  / real (presentCount + notPresentCount)"
  assume a: "0 < presentCount + notPresentCount \<and>
   round (countToCanvasY P (cumulative + (presentCount + notPresentCount)))
     \<le> round (countToCanvasY P cumulative)"
  then have pos: "0 < presentCount + notPresentCount" and le: "?yEnd \<le> ?yStart" by simp_all
  have "0 < real (presentCount + notPresentCount)" using pos by (simp only: of_nat_0_less_iff)
  then have nz: "real (presentCount + notPresentCount) \<noteq> 0" by (rule less_imp_neq [THEN not_sym])
  have f: "fillBand P hov spatialScale i presentCount notPresentCount cumulative
        = Inr [FillRect (NotPresentColor spatialScale (saturation hov spatialScale))
                 (real_of_int (round (binToCanvasX P (real i)))) ?yEnd
                 (real_of_int (round (binToCanvasX P (real (i + 1))))
                    - real_of_int (round (binToCanvasX P (real i))))
                 (?ySplit - ?yEnd),
               FillRect (PresentColor spatialScale (saturation hov spatialScale))
                 (real_of_int (round (binToCanvasX P (real i)))) ?ySplit
                 (real_of_int (round (binToCanvasX P (real (i + 1))))
                    - real_of_int (round (binToCanvasX P (real i))))
                 (?yStart - ?ySplit)]"
    using nz unfolding fillBand_def Let_def jsDivide_def by simp
  have b1: "?yEnd \<le> ?ySplit" and b2: "?ySplit \<le> ?yStart"
    using split_between [OF pos le] by simp_all
  show "\<exists>style style' x w ySplit.
      fillBand P hov spatialScale i presentCount notPresentCount cumulative
        = Inr [FillRect style x ?yEnd w (ySplit - ?yEnd),
               FillRect style' x ySplit w (?yStart - ySplit)]
      \<and> ySplit = ?ySplit
      \<and> ?yEnd \<le> ySplit \<and> ySplit \<le> ?yStart
      \<and> 0 \<le> ySplit - ?yEnd \<and> 0 \<le> ?yStart - ySplit
      \<and> (ySplit - ?yEnd) + (?yStart - ySplit) = ?yStart - ?yEnd"
    using f b1 b2 by (intro exI [of _ ?ySplit] exI conjI) simp_all
qed

text \<open>Witness for C10: one chunk present and two not, in a band from 10 up to 0.\<close>

theorem fillBand_tiles_band_witness:
  "0 \<le> yScale examplePass
   \<and> round (countToCanvasY examplePass (0 + (1 + 2))) = 0
   \<and> round (countToCanvasY examplePass 0) = 10
   \<and> (\<exists>style style' x w ySplit.
        fillBand examplePass None 9 0 1 2 0
          = Inr [FillRect style x 0 w (ySplit - 0), FillRect style' x ySplit w (10 - ySplit)]
        \<and> ySplit = 20 / 3 \<and> 0 \<le> ySplit \<and> ySplit \<le> 10)"
proof -
  have s: "0 \<le> yScale examplePass" by (simp add: examplePass_def)
  have e: "round (countToCanvasY examplePass (0 + (1 + 2))) = 0"
    and b: "round (countToCanvasY examplePass 0) = 10"
    by (simp_all add: countToCanvasY_def examplePass_def ln4)
  show ?thesis
    using fillBand_tiles_band [of examplePass 0 1 2 None 9 0] s
    unfolding e b by auto
qed

end
